theory Spec2Isabelle
  imports Complex_Main "HOL-Library.AList" "HOL-Library.Option_ord" "HOL-Library.Multiset"
begin

section \<open>Dates and time values\<close>

text \<open>
  The lidar tool (\<^verbatim>\<open>basin_setup/grm.py\<close>) handles dates as timezone-naive pandas
  timestamps. A timestamp is modelled as the whole number of seconds since
  1970-01-01T00:00:00 (fractions of a second are not modelled). Its calendar fields are
  read with the usual proleptic Gregorian day-number conversion, which is what pandas
  and the \<^verbatim>\<open>standard\<close> netCDF calendar use for dates after 1582.
\<close>

type_synonym timestamp = int

definition days_from_civil :: "int \<Rightarrow> int \<Rightarrow> int \<Rightarrow> int" where
  "days_from_civil yr mo dy =
     (let y' = (if mo \<le> 2 then yr - 1 else yr);
          era = y' div 400;
          yoe = y' - era * 400;
          doy = (153 * (if mo > 2 then mo - 3 else mo + 9) + 2) div 5 + dy - 1;
          doe = yoe * 365 + yoe div 4 - yoe div 100 + doy
      in era * 146097 + doe - 719468)"

definition civil_from_days :: "int \<Rightarrow> int \<times> int \<times> int" where
  "civil_from_days z =
     (let z' = z + 719468;
          era = z' div 146097;
          doe = z' - era * 146097;
          yoe = (doe - doe div 1460 + doe div 36524 - doe div 146096) div 365;
          doy = doe - (365 * yoe + yoe div 4 - yoe div 100);
          mp = (5 * doy + 2) div 153;
          dy = doy - (153 * mp + 2) div 5 + 1;
          mo = (if mp < 10 then mp + 3 else mp - 9);
          yr = yoe + era * 400 + (if mo \<le> 2 then 1 else 0)
      in (yr, mo, dy))"

text \<open>\<^verbatim>\<open>pd.to_datetime("Y-M-D h:m:s")\<close> for a well-formed date.\<close>

definition to_datetime :: "int \<Rightarrow> int \<Rightarrow> int \<Rightarrow> int \<Rightarrow> int \<Rightarrow> int \<Rightarrow> timestamp" where
  "to_datetime yr mo dy hh mi ss = days_from_civil yr mo dy * 86400 + hh * 3600 + mi * 60 + ss"

text \<open>\<^verbatim>\<open>Timestamp.date()\<close>: the timestamp truncated to its day (a day number).\<close>

definition date_of :: "timestamp \<Rightarrow> int" where
  "date_of ts = ts div 86400"

definition year_of :: "timestamp \<Rightarrow> int" where
  "year_of ts = fst (civil_from_days (date_of ts))"

definition month_of :: "timestamp \<Rightarrow> int" where
  "month_of ts = fst (snd (civil_from_days (date_of ts)))"

text \<open>\<^verbatim>\<open>pd.to_timedelta(n, unit='h')\<close>, in seconds.\<close>

definition to_timedelta_h :: "int \<Rightarrow> int" where
  "to_timedelta_h n = n * 3600"

text \<open>
  The units attribute of the collection's time variable is the string
  \<^verbatim>\<open>hours since <epoch>\<close>; it is modelled by its epoch. \<^verbatim>\<open>nc.date2num\<close> and
  \<^verbatim>\<open>nc.num2date\<close> convert between timestamps and hours since the epoch; time values are
  exact rationals here (the file stores 32-bit floats, whose rounding is not modelled).
\<close>

datatype time_units = Hours_since timestamp

fun epoch_of :: "time_units \<Rightarrow> timestamp" where
  "epoch_of (Hours_since e) = e"

definition date2num :: "timestamp \<Rightarrow> time_units \<Rightarrow> string \<Rightarrow> rat" where
  "date2num d u cal = of_int (d - epoch_of u) / 3600"

definition num2date :: "rat \<Rightarrow> time_units \<Rightarrow> string \<Rightarrow> timestamp" where
  "num2date v u cal = epoch_of u + \<lfloor>v * 3600\<rfloor>"

section \<open>Files\<close>

text \<open>
  A raster cell is a number or the floating-point NaN. \<^verbatim>\<open>np_eq\<close> is numpy's
  element comparison \<^verbatim>\<open>==\<close>, under which NaN equals nothing.
\<close>

datatype cell = Num rat | NaN

type_synonym grid = "cell list list"

fun np_eq :: "cell \<Rightarrow> cell \<Rightarrow> bool" where
  "np_eq (Num a) (Num b) = (a = b)"
| "np_eq _ _ = False"

text \<open>
  The reference topo file: its global attributes, its coordinate vectors and the
  \<^verbatim>\<open>long_name\<close> of its mask variable.
\<close>

record topo =
  topo_attrs :: "string \<rightharpoonup> string"
  topo_x :: "rat list"
  topo_y :: "rat list"
  mask_long_name :: string

text \<open>
  The collection file \<^verbatim>\<open>lidar_depths_wy<N>.nc\<close>: global attributes, the coordinate
  variables and the time and depth variables. The time and depth variables are
  optional: a file whose creation was interrupted has neither. The time dimension is
  unlimited and its length is the length of \<^verbatim>\<open>time_values\<close>; \<^verbatim>\<open>depth_data\<close> holds
  the slices written so far, by time index.
\<close>

record time_variable =
  units :: time_units
  calendar :: string
  time_values :: "rat list"

record depth_variable =
  depth_attrs :: "(string \<times> string) list"
  depth_data :: "nat \<rightharpoonup> grid"

record collection =
  attrs :: "string \<rightharpoonup> string"
  var_x :: "rat list"
  var_y :: "rat list"
  var_time :: "time_variable option"
  var_depth :: "depth_variable option"

section \<open>Errors\<close>

text \<open>
  Every check raises \<^verbatim>\<open>ValueError(errmsg)\<close> through \<^verbatim>\<open>handle_error\<close>; the message
  tells the checks apart and is modelled by a tag carrying the values formatted into it.
\<close>

datatype errmsg =
    Domain_mismatch
  | Basin_mismatch string string
  | Water_year_mismatch int int
  | Date_already_present
  | Mask_not_associated string string
  | Zero_size_array
  | Unparseable_date

datatype error =
    ValueError errmsg
  | KeyError string
  | AttributeError string
  | UnboundLocalError string
  | TypeError
  | CalledProcessError
  | Exception_raised string

definition handle_error :: "errmsg \<Rightarrow> bool \<Rightarrow> error + unit" where
  "handle_error msg err = (if err then Inl (ValueError msg) else Inr ())"

section \<open>The time index\<close>

text \<open>\<^verbatim>\<open>np.where(times[:] == t)[0]\<close>: the positions holding \<open>t\<close>, ascending.\<close>

definition np_where_eq :: "rat list \<Rightarrow> rat \<Rightarrow> nat list" where
  "np_where_eq vs t = filter (\<lambda>i. vs ! i = t) [0..<length vs]"

text \<open>
  \<^verbatim>\<open>variables['time'][index] = t\<close>: inside the axis the entry is overwritten; at the
  end the unlimited dimension grows by one (\<^verbatim>\<open>get_time_index\<close> never produces an index
  beyond the length).
\<close>

definition write_time :: "rat list \<Rightarrow> nat \<Rightarrow> rat \<Rightarrow> rat list" where
  "write_time vs i t = (if i < length vs then vs[i := t] else vs @ [t])"

definition get_time_index :: "timestamp \<Rightarrow> collection \<Rightarrow> (error + nat) \<times> collection" where
  "get_time_index d ds =
     (case var_time ds of
        None \<Rightarrow> (Inl (KeyError ''time''), ds)
      | Some tvar \<Rightarrow>
          (let t = date2num (d + to_timedelta_h 23) (units tvar) (calendar tvar);
               index =
                 (if length (time_values tvar) \<noteq> 0 then
                    (let idx = np_where_eq (time_values tvar) t
                     in if length idx = 0 then length (time_values tvar) else idx ! 0)
                  else length (time_values tvar))
           in (Inr index,
               ds\<lparr>var_time :=
                    Some (tvar\<lparr>time_values := write_time (time_values tvar) index t\<rparr>)\<rparr>)))"

section \<open>The water year\<close>

text \<open>
  Lines 272--278 of \<^verbatim>\<open>add_to_collection\<close>: the water year, and \<^verbatim>\<open>start_yr\<close>, an
  attribute that only the first branch assigns.
\<close>

definition water_year_of :: "timestamp \<Rightarrow> int \<times> int option" where
  "water_year_of d =
     (let water_year = year_of d
      in if month_of d \<le> 10 then (water_year, Some (water_year - 1))
         else (water_year + 1, None))"

section \<open>Strings\<close>

text \<open>
  Python's \<^verbatim>\<open>str.lower\<close>, \<^verbatim>\<open>str.title\<close>, \<^verbatim>\<open>str.split(" ")\<close> and the substring test
  \<^verbatim>\<open>a in b\<close>, on ASCII text. \<^verbatim>\<open>split(" ")\<close> cuts at every single blank, so two blanks in
  a row give an empty word and the empty string gives one empty word.
\<close>

definition lower_char :: "char \<Rightarrow> char" where
  "lower_char c =
     (case map_of (zip ''ABCDEFGHIJKLMNOPQRSTUVWXYZ'' ''abcdefghijklmnopqrstuvwxyz'') c of
        Some l \<Rightarrow> l
      | None \<Rightarrow> c)"

definition upper_char :: "char \<Rightarrow> char" where
  "upper_char c =
     (case map_of (zip ''abcdefghijklmnopqrstuvwxyz'' ''ABCDEFGHIJKLMNOPQRSTUVWXYZ'') c of
        Some u \<Rightarrow> u
      | None \<Rightarrow> c)"

definition is_alpha :: "char \<Rightarrow> bool" where
  "is_alpha c \<longleftrightarrow> lower_char c \<noteq> c \<or> upper_char c \<noteq> c"

definition lower :: "string \<Rightarrow> string" where
  "lower s = map lower_char s"

fun title_from :: "bool \<Rightarrow> string \<Rightarrow> string" where
  "title_from in_word [] = []"
| "title_from in_word (c # cs) =
     (if is_alpha c then (if in_word then lower_char c else upper_char c) # title_from True cs
      else c # title_from False cs)"

definition title :: "string \<Rightarrow> string" where
  "title s = title_from False s"

fun split_on :: "char \<Rightarrow> string \<Rightarrow> string list" where
  "split_on sep [] = [[]]"
| "split_on sep (c # cs) =
     (if c = sep then [] # split_on sep cs
      else (case split_on sep cs of
              [] \<Rightarrow> [[c]]
            | w # ws \<Rightarrow> (c # w) # ws))"

fun py_in :: "string \<Rightarrow> string \<Rightarrow> bool" where
  "py_in key [] = (key = [])"
| "py_in key (c # cs) = (take (length key) (c # cs) = key \<or> py_in key cs)"

fun str_nat :: "nat \<Rightarrow> string" where
  "str_nat n =
     (if n < 10 then [''0123456789'' ! n]
      else str_nat (n div 10) @ [''0123456789'' ! (n mod 10)])"

declare str_nat.simps [simp del]

definition str_int :: "int \<Rightarrow> string" where
  "str_int i = (if i < 0 then CHR ''-'' # str_nat (nat (- i)) else str_nat (nat i))"

section \<open>The object handling one image\<close>

text \<open>
  \<^verbatim>\<open>GRM.__init__\<close> turns the basin identifier of the command line into the display
  name used in titles and checks.
\<close>

definition basin_display_name :: "string \<Rightarrow> string" where
  "basin_display_name b =
     title (case map_of [(''brb'', ''boise river basin''), (''lakes'', ''mammoth lakes basin'')] b of
              Some full \<Rightarrow> full
            | None \<Rightarrow> b @ '' river basin'')"

text \<open>
  The \<^verbatim>\<open>date\<close> keyword: absent, \<^verbatim>\<open>None\<close>, a value that \<^verbatim>\<open>pd.to_datetime\<close> rejects, or a
  date.
\<close>

datatype date_kwarg = No_date_kwarg | Date_None | Date_unparseable | Date_value timestamp

text \<open>
  The working file written by \<^verbatim>\<open>grid_match\<close> (the output of the external warp): its
  single variable \<^verbatim>\<open>Band1\<close> and that variable's \<^verbatim>\<open>_FillValue\<close>.
\<close>

record raster =
  Band1 :: grid
  FillValue :: cell

record grm =
  self_image :: string
  self_basin :: string
  self_date :: date_kwarg
  self_now :: string
  self_topo_ds :: topo
  self_working_file :: raster
  version :: string

section \<open>Consistency checks\<close>

text \<open>
  The loop of \<^verbatim>\<open>check_topo_basin_name\<close>. The local variable \<^verbatim>\<open>found\<close> is unbound
  (\<open>None\<close>) until the first iteration assigns it.
\<close>

fun find_keyword :: "string list \<Rightarrow> string \<Rightarrow> bool option \<Rightarrow> bool option" where
  "find_keyword [] basin found = found"
| "find_keyword (key # keys) basin found =
     (if py_in key (lower basin) then Some True
      else find_keyword keys basin (Some False))"

definition mask_keywords :: "string \<Rightarrow> string list" where
  "mask_keywords topo_mask =
     filter (\<lambda>w. w \<notin> set [''river'', ''basin'']) (split_on CHR '' '' topo_mask)"

definition check_topo_basin_name :: "string \<Rightarrow> topo \<Rightarrow> error + unit" where
  "check_topo_basin_name basin topo_ds =
     (let topo_mask = lower (mask_long_name topo_ds);
          keywords = mask_keywords topo_mask
      in case find_keyword keywords basin None of
           None \<Rightarrow> Inl (UnboundLocalError ''found'')
         | Some found \<Rightarrow> handle_error (Mask_not_associated topo_mask basin) (\<not> found))"

definition check_water_year_match :: "int \<Rightarrow> collection \<Rightarrow> error + unit" where
  "check_water_year_match water_year ds =
     (case var_time ds of
        None \<Rightarrow> Inl (KeyError ''time'')
      | Some tvar \<Rightarrow>
          (let nc_wy = year_of (epoch_of (units tvar)) + 1
           in handle_error (Water_year_mismatch water_year nc_wy) (nc_wy \<noteq> water_year)))"

definition check_basin_match :: "string \<Rightarrow> collection \<Rightarrow> error + unit" where
  "check_basin_match basin ds =
     (case attrs ds ''Title'' of
        None \<Rightarrow> Inl (AttributeError ''Title'')
      | Some ttl \<Rightarrow>
          handle_error (Basin_mismatch ttl basin) (\<not> py_in (lower basin) (lower ttl)))"

definition check_overwrite :: "timestamp \<Rightarrow> collection \<Rightarrow> error + unit" where
  "check_overwrite d ds =
     (case var_time ds of
        None \<Rightarrow> Inl (KeyError ''time'')
      | Some tvar \<Rightarrow>
          (let ncdates =
                 map (\<lambda>v. date_of (num2date v (units tvar) (calendar tvar))) (time_values tvar)
           in handle_error Date_already_present (date_of d \<in> set ncdates)))"

text \<open>\<^verbatim>\<open>np.max\<close> and \<^verbatim>\<open>np.min\<close> raise \<^verbatim>\<open>ValueError\<close> on an empty array.\<close>

definition np_max :: "rat list \<Rightarrow> error + rat" where
  "np_max vs = (if vs = [] then Inl (ValueError Zero_size_array) else Inr (fold max (tl vs) (hd vs)))"

definition np_min :: "rat list \<Rightarrow> error + rat" where
  "np_min vs = (if vs = [] then Inl (ValueError Zero_size_array) else Inr (fold min (tl vs) (hd vs)))"

definition and_then :: "error + 'a \<Rightarrow> ('a \<Rightarrow> error + 'b) \<Rightarrow> error + 'b" where
  "and_then r f = (case r of Inl e \<Rightarrow> Inl e | Inr v \<Rightarrow> f v)"

text \<open>
  One round of the outer loop of \<^verbatim>\<open>check_domain_match\<close>, for one coordinate: the
  maxima, the minima, then the lengths; \<open>err\<close> is the flag \<^verbatim>\<open>error\<close> so far.
\<close>

definition domain_differs :: "rat list \<Rightarrow> rat list \<Rightarrow> bool \<Rightarrow> error + bool" where
  "domain_differs v_topo v_lidar err =
     and_then (np_max v_topo) (\<lambda>max_topo.
     and_then (np_max v_lidar) (\<lambda>max_lidar.
     and_then (np_min v_topo) (\<lambda>min_topo.
     and_then (np_min v_lidar) (\<lambda>min_lidar.
       Inr (err \<or> max_topo \<noteq> max_lidar \<or> min_topo \<noteq> min_lidar
              \<or> length v_topo \<noteq> length v_lidar)))))"

definition check_domain_match :: "topo \<Rightarrow> collection \<Rightarrow> error + unit" where
  "check_domain_match topo_ds ds =
     and_then (domain_differs (topo_x topo_ds) (var_x ds) False) (\<lambda>err_x.
     and_then (domain_differs (topo_y topo_ds) (var_y ds) err_x) (\<lambda>err.
       handle_error Domain_mismatch err))"

text \<open>
  The five checks in the order \<^verbatim>\<open>add_to_collection\<close> runs them on an existing file;
  the first that raises ends the sequence.
\<close>

definition run_checks :: "grm \<Rightarrow> timestamp \<Rightarrow> int \<Rightarrow> collection \<Rightarrow> error + unit" where
  "run_checks g d water_year ds =
     and_then (check_basin_match (self_basin g) ds) (\<lambda>_.
     and_then (check_domain_match (self_topo_ds g) ds) (\<lambda>_.
     and_then (check_water_year_match water_year ds) (\<lambda>_.
     and_then (check_overwrite d ds) (\<lambda>_.
       check_topo_basin_name (self_basin g) (self_topo_ds g)))))"

section \<open>Creating a collection\<close>

text \<open>
  \<^verbatim>\<open>copy_nc(topo, outfile, exclude=ex_var)\<close> writes a new file holding the topo's global
  attributes and its variables \<^verbatim>\<open>x\<close>, \<^verbatim>\<open>y\<close> and \<^verbatim>\<open>projection\<close>.
\<close>

definition copy_nc :: "topo \<Rightarrow> collection" where
  "copy_nc topo_ds =
     \<lparr>attrs = topo_attrs topo_ds, var_x = topo_x topo_ds, var_y = topo_y topo_ds,
      var_time = None, var_depth = None\<rparr>"

text \<open>
  \<^verbatim>\<open>create_lidar_netcdf\<close> returns the error raised, if any, and the file as it then is
  on disk. Reading the attribute \<^verbatim>\<open>start_yr\<close> raises when nothing has assigned it, after
  \<^verbatim>\<open>copy_nc\<close> has already written the file. The chunk sizes \<^verbatim>\<open>(6, 10, 10)\<close> and the
  fill value of the depth variable are storage parameters and are not modelled; the
  grids considered have at least ten cells each way, as those chunk sizes need.
\<close>

definition create_lidar_netcdf ::
    "grm \<Rightarrow> int \<Rightarrow> int option \<Rightarrow> error option \<times> collection" where
  "create_lidar_netcdf g water_year start_yr =
     (let ds = copy_nc (self_topo_ds g)
      in case start_yr of
           None \<Rightarrow> (Some (AttributeError ''start_yr''), ds)
         | Some sy \<Rightarrow>
             (let start_date = to_datetime sy 10 1 0 0 0;
                  ds1 = ds\<lparr>var_time :=
                          Some \<lparr>units = Hours_since start_date, calendar = ''standard'',
                                time_values = []\<rparr>\<rparr>;
                  ds2 = ds1\<lparr>var_depth :=
                          Some \<lparr>depth_attrs =
                                  [(''units'', ''meters''),
                                   (''long_name'', ''lidar sself.now depths''),
                                   (''short_name'', ''depth''),
                                   (''grid_mapping'', ''projection''),
                                   (''description'', ''Measured snow depth from ASO lidar.'')],
                                depth_data = Map.empty\<rparr>\<rparr>;
                  ds3 = ds2\<lparr>attrs := (attrs ds2)
                          (''last_modified'' \<mapsto> self_now g,
                           ''dateCreated'' \<mapsto> self_now g,
                           ''Title'' \<mapsto> ''ASO 50m Lidar Flights Over the '' @ self_basin g
                                          @ '' for Water Year '' @ str_int water_year @ ''.'',
                           ''history'' \<mapsto> ''Created using Basin Setup v'' @ version g)\<rparr>
              in (None, ds3)))"

section \<open>Preparing the regridded raster\<close>

text \<open>
  Lines 329--334 of \<^verbatim>\<open>add_to_collection\<close> work on the open working file and on arrays in
  memory. Reading a netCDF variable (\<^verbatim>\<open>variables['Band1'][:]\<close>) returns a new array
  holding the file's values; assigning to that array changes the array only; assigning to
  the variable's slice writes the file. The state is the file and the arrays allocated so
  far, addressed by position.
\<close>

record nc_state =
  on_disk :: raster
  arrays :: "grid list"

definition read_Band1 :: "nc_state \<Rightarrow> nat \<times> nc_state" where
  "read_Band1 s = (length (arrays s), s\<lparr>arrays := arrays s @ [Band1 (on_disk s)]\<rparr>)"

definition write_Band1 :: "grid \<Rightarrow> nc_state \<Rightarrow> nc_state" where
  "write_Band1 data s = s\<lparr>on_disk := (on_disk s)\<lparr>Band1 := data\<rparr>\<rparr>"

definition equals_scalar :: "grid \<Rightarrow> cell \<Rightarrow> bool list list" where
  "equals_scalar a v = map (map (\<lambda>c. np_eq c v)) a"

text \<open>\<^verbatim>\<open>a[idx] = v\<close> on the array at address \<open>addr\<close>, for a boolean index.\<close>

definition setitem_where :: "nat \<Rightarrow> bool list list \<Rightarrow> cell \<Rightarrow> nc_state \<Rightarrow> nc_state" where
  "setitem_where addr idx v s =
     s\<lparr>arrays := (arrays s)
          [addr := map2 (\<lambda>row irow. map2 (\<lambda>c b. if b then v else c) row irow)
                     (arrays s ! addr) idx]\<rparr>"

definition flipud :: "grid \<Rightarrow> grid" where
  "flipud a = rev a"

definition fill_and_flip :: "raster \<Rightarrow> nc_state" where
  "fill_and_flip working_file =
     (let s0 = \<lparr>on_disk = working_file, arrays = []\<rparr>;
          (a1, s1) = read_Band1 s0;
          idx = equals_scalar (arrays s1 ! a1) (FillValue (on_disk s1));
          (a2, s2) = read_Band1 s1;
          s3 = setitem_where a2 idx NaN s2;
          (a3, s4) = read_Band1 s3
      in write_Band1 (flipud (arrays s4 ! a3)) s4)"

section \<open>Adding an image to the collection\<close>

text \<open>
  The output folder maps a water year \<open>N\<close> to the file \<^verbatim>\<open>lidar_depths_wy<N>.nc\<close>, if it
  exists. \<^verbatim>\<open>parse_fname_date\<close> (its date parsing is pandas') and \<^verbatim>\<open>mask_nc\<close> (from
  \<^verbatim>\<open>spatialnc\<close>) are parameters.
\<close>

type_synonym output_folder = "int \<rightharpoonup> collection"

text \<open>Lines 258--270: the date of the image.\<close>

definition image_date :: "(string \<Rightarrow> timestamp option) \<Rightarrow> grm \<Rightarrow> error + timestamp" where
  "image_date parse_fname_date g =
     (case self_date g of
        No_date_kwarg \<Rightarrow>
          (case parse_fname_date (self_image g) of
             None \<Rightarrow> Inl (Exception_raised (''Unable to parse date from filename '' @ self_image g @ ''.''))
           | Some d \<Rightarrow> Inr d)
      | Date_None \<Rightarrow> Inl (AttributeError ''year'')
      | Date_unparseable \<Rightarrow> Inl (ValueError Unparseable_date)
      | Date_value d \<Rightarrow> Inr d)"

text \<open>
  Lines 319--352: the time index, the modification stamp, the preparation and masking of
  the working file, and the write of the depth slice.
\<close>

definition append_image ::
    "(raster \<Rightarrow> topo \<Rightarrow> raster) \<Rightarrow> grm \<Rightarrow> timestamp \<Rightarrow> int \<Rightarrow> collection \<Rightarrow> output_folder
       \<Rightarrow> error option \<times> output_folder" where
  "append_image mask_nc g d water_year ds files =
     (case get_time_index d ds of
        (Inl e, ds1) \<Rightarrow> (Some e, files(water_year \<mapsto> ds1))
      | (Inr index, ds1) \<Rightarrow>
          (let ds2 = ds1\<lparr>attrs := (attrs ds1)(''last_modified'' \<mapsto> self_now g)\<rparr>;
               prepared = on_disk (fill_and_flip (self_working_file g));
               new_ds = mask_nc prepared (self_topo_ds g)
           in case var_depth ds2 of
                None \<Rightarrow> (Some (KeyError ''depth''), files(water_year \<mapsto> ds2))
              | Some dvar \<Rightarrow>
                  (None,
                   files(water_year \<mapsto>
                     ds2\<lparr>var_depth :=
                           Some (dvar\<lparr>depth_data := (depth_data dvar)(index \<mapsto> Band1 new_ds)\<rparr>)\<rparr>))))"

definition add_to_collection ::
    "(string \<Rightarrow> timestamp option) \<Rightarrow> (raster \<Rightarrow> topo \<Rightarrow> raster) \<Rightarrow> grm \<Rightarrow> output_folder
       \<Rightarrow> error option \<times> output_folder" where
  "add_to_collection parse_fname_date mask_nc g files =
     (case image_date parse_fname_date g of
        Inl e \<Rightarrow> (Some e, files)
      | Inr d \<Rightarrow>
          (let (water_year, start_yr) = water_year_of d
           in case files water_year of
                Some ds \<Rightarrow>
                  (case run_checks g d water_year ds of
                     Inl e \<Rightarrow> (Some e, files)
                   | Inr _ \<Rightarrow> append_image mask_nc g d water_year ds files)
              | None \<Rightarrow>
                  (case create_lidar_netcdf g water_year start_yr of
                     (Some e, ds) \<Rightarrow> (Some e, files(water_year \<mapsto> ds))
                   | (None, ds) \<Rightarrow> append_image mask_nc g d water_year ds files)))"

section \<open>Processing one image\<close>

text \<open>
  \<^verbatim>\<open>run_grm\<close> builds the object from the keyword arguments, regrids the image and adds
  it to the collection. Building the object reads the topo and runs \<^verbatim>\<open>gdalinfo\<close> on the
  image, and \<^verbatim>\<open>grid_match\<close> runs \<^verbatim>\<open>gdalwarp\<close>; these external steps are the parameter
  \<open>regrid\<close>, which gives the working file for an image or the error raised. The
  setting holds what is the same for every image of a run: the contents of the topo file,
  the basin identifier, the clock reading, the package version and the external tools.
  \<^verbatim>\<open>main\<close> always passes the keyword \<^verbatim>\<open>date\<close>, the dictionary key, which is a date or
  \<^verbatim>\<open>None\<close>.
\<close>

record setting =
  arg_topo :: topo
  arg_basin :: string
  clock :: string
  package_version :: string
  regrid :: "string \<Rightarrow> error + raster"
  mask_tool :: "raster \<Rightarrow> topo \<Rightarrow> raster"
  fname_parser :: "string \<Rightarrow> timestamp option"

definition run_grm ::
    "setting \<Rightarrow> timestamp option \<Rightarrow> string \<Rightarrow> output_folder \<Rightarrow> error option \<times> output_folder" where
  "run_grm env d f files =
     (case regrid env f of
        Inl e \<Rightarrow> (Some e, files)
      | Inr working \<Rightarrow>
          add_to_collection (fname_parser env) (mask_tool env)
            \<lparr>self_image = f,
             self_basin = basin_display_name (arg_basin env),
             self_date = (case d of None \<Rightarrow> Date_None | Some ts \<Rightarrow> Date_value ts),
             self_now = clock env,
             self_topo_ds = arg_topo env,
             self_working_file = working,
             version = package_version env\<rparr>
            files)"

section \<open>The batch driver\<close>

text \<open>
  \<^verbatim>\<open>main\<close> pairs each image with a date (given with \<^verbatim>\<open>--dates\<close>, or parsed from the
  file name, where \<^verbatim>\<open>parse_fname_date\<close> may return \<^verbatim>\<open>None\<close>), stores the pairs in a
  dictionary keyed by date and runs \<^verbatim>\<open>run_grm\<close> for every key in sorted order. The world
  that \<^verbatim>\<open>run_grm\<close> acts on (the output folder and the temporary files) is a parameter
  type, and so are \<^verbatim>\<open>run_grm\<close> and \<^verbatim>\<open>parse_fname_date\<close> themselves. A Python dictionary
  keeps the position of a key that is assigned again and takes the new value, as
  \<^const>\<open>AList.update\<close> does.
\<close>

record 'k args =
  arg_images :: "string list"
  arg_dates :: "'k list"
  arg_debug :: bool
  arg_allow_exceptions :: bool

datatype 'e main_error =
    Dates_images_mismatch
  | Unorderable_keys
  | Missing_key
  | Propagated 'e

text \<open>
  The loop's state: the world, the counter \<^verbatim>\<open>skips\<close>, and the images named by the log
  lines \<^verbatim>\<open>Processing ...\<close> and \<^verbatim>\<open>Skipping ... due to error\<close>, in order.
\<close>

record 'w progress =
  world :: 'w
  skips :: int
  processing :: "string list"
  skipping :: "string list"

record 'w summary =
  final :: "'w progress"
  files_processed :: int
  files_total :: int
  none_processed_warning :: bool

definition image_dict :: "'k list \<Rightarrow> string list \<Rightarrow> ('k \<times> string) list" where
  "image_dict dates images = fold (\<lambda>(k, v). AList.update k v) (zip dates images) []"

text \<open>
  \<^verbatim>\<open>sorted(image_dict.keys())\<close>: comparing \<^verbatim>\<open>None\<close> with a date raises \<^verbatim>\<open>TypeError\<close>, which
  happens as soon as \<^verbatim>\<open>None\<close> is one of two or more keys.
\<close>

definition sorted_keys :: "('k::linorder) option list \<Rightarrow> 'e main_error + 'k option list" where
  "sorted_keys ks =
     (if None \<in> set ks \<and> length ks > 1 then Inl Unorderable_keys else Inr (sort ks))"

text \<open>
  The loop of lines 604--629. \<open>catch\<close> is the condition
  \<^verbatim>\<open>not DEBUG or args.allow_exceptions\<close> under which \<^verbatim>\<open>run_grm\<close> runs inside
  \<^verbatim>\<open>try ... except Exception\<close>.
\<close>

fun process_images ::
    "('k \<Rightarrow> string \<Rightarrow> 'w \<Rightarrow> 'e option \<times> 'w) \<Rightarrow> bool \<Rightarrow> ('k \<times> string) list \<Rightarrow> 'k list
       \<Rightarrow> 'w progress \<Rightarrow> 'e main_error + 'w progress" where
  "process_images run catch dict [] p = Inr p"
| "process_images run catch dict (d # ds) p =
     (case map_of dict d of
        None \<Rightarrow> Inl Missing_key
      | Some f \<Rightarrow>
          (let p1 = p\<lparr>processing := processing p @ [f]\<rparr>
           in case run d f (world p1) of
                (None, w) \<Rightarrow> process_images run catch dict ds (p1\<lparr>world := w\<rparr>)
              | (Some e, w) \<Rightarrow>
                  if catch then
                    process_images run catch dict ds
                      (p1\<lparr>world := w, skipping := skipping p1 @ [f], skips := skips p1 + 1\<rparr>)
                  else Inl (Propagated e)))"

definition main ::
    "(string \<Rightarrow> ('k::linorder) option) \<Rightarrow> ('k option \<Rightarrow> string \<Rightarrow> 'w \<Rightarrow> 'e option \<times> 'w)
       \<Rightarrow> 'k args \<Rightarrow> 'w \<Rightarrow> 'e main_error + 'w summary" where
  "main parse_fname_date run args w =
     (let dates = (if arg_dates args \<noteq> [] then map Some (arg_dates args)
                   else map parse_fname_date (arg_images args))
      in if length dates \<noteq> length (arg_images args) then Inl Dates_images_mismatch
         else
           (let dict = image_dict dates (arg_images args)
            in case sorted_keys (map fst dict) of
                 Inl e \<Rightarrow> Inl e
               | Inr keys \<Rightarrow>
                   (case process_images run
                           (\<not> arg_debug args \<or> arg_allow_exceptions args) dict keys
                           \<lparr>world = w, skips = 0, processing = [], skipping = []\<rparr> of
                      Inl e \<Rightarrow> Inl e
                    | Inr p \<Rightarrow>
                        Inr \<lparr>final = p,
                             files_processed = int (length (arg_images args)) - skips p,
                             files_total = int (length (arg_images args)),
                             none_processed_warning =
                               (skips p = int (length (arg_images args)))\<rparr>)))"

text \<open>
  What running the retained observations one after the other amounts to: each is run on
  the world its predecessor left, whether that one failed or not.
\<close>

fun run_each ::
    "('k \<Rightarrow> string \<Rightarrow> 'w \<Rightarrow> 'e option \<times> 'w) \<Rightarrow> ('k \<times> string) list \<Rightarrow> 'w
       \<Rightarrow> (string \<times> 'e option) list \<times> 'w" where
  "run_each run [] w = ([], w)"
| "run_each run ((d, f) # rest) w =
     (let (r, w1) = run d f w;
          (rs, w2) = run_each run rest w1
      in ((f, r) # rs, w2))"

definition failed_images :: "(string \<times> 'e option) list \<Rightarrow> string list" where
  "failed_images rs = map fst (filter (\<lambda>(f, r). r \<noteq> None) rs)"

text \<open>
  The observations the dictionary retains for a list of keys, and the loop state after
  running them: every one is logged as processed, the failed ones are logged as skipped
  and counted.
\<close>

definition retained :: "('k \<times> string) list \<Rightarrow> 'k list \<Rightarrow> ('k \<times> string) list" where
  "retained dict keys = map (\<lambda>d. (d, the (map_of dict d))) keys"

definition after_runs ::
    "'w progress \<Rightarrow> (string \<times> 'e option) list \<times> 'w \<Rightarrow> 'w progress" where
  "after_runs p R =
     \<lparr>world = snd R, skips = skips p + int (length (failed_images (fst R))),
      processing = processing p @ map fst (fst R),
      skipping = skipping p @ failed_images (fst R)\<rparr>"

section \<open>Example inputs\<close>

text \<open>
  A reference grid of ten by ten cells over the extent \<^verbatim>\<open>[0, 0, 100, 100]\<close>, a second
  one over \<^verbatim>\<open>[0, 0, 90, 90]\<close>, and a warped raster of ten rows whose first cell is
  no-data.
\<close>

definition topo_A :: topo where
  "topo_A = \<lparr>topo_attrs = Map.empty,
              topo_x = [5, 15, 25, 35, 45, 55, 65, 75, 85, 95],
              topo_y = [95, 85, 75, 65, 55, 45, 35, 25, 15, 5],
              mask_long_name = ''Tuolumne River Basin''\<rparr>"

definition topo_B :: topo where
  "topo_B = \<lparr>topo_attrs = Map.empty,
              topo_x = [9 / 2, 27 / 2, 45 / 2, 63 / 2, 81 / 2, 99 / 2, 117 / 2, 135 / 2,
                        153 / 2, 171 / 2],
              topo_y = [171 / 2, 153 / 2, 135 / 2, 117 / 2, 99 / 2, 81 / 2, 63 / 2, 45 / 2,
                        27 / 2, 9 / 2],
              mask_long_name = ''Tuolumne River Basin''\<rparr>"

definition warped :: raster where
  "warped = \<lparr>Band1 = (Num (- 9999) # replicate 9 (Num 1)) # replicate 9 (replicate 10 (Num 2)),
              FillValue = Num (- 9999)\<rparr>"

text \<open>
  Stand-ins for the external tools: file names carry no date, \<^verbatim>\<open>mask_nc\<close> masks nothing
  out, and the warp gives the raster above for every image but those listed in \<open>bad\<close>,
  for which \<^verbatim>\<open>gdalwarp\<close> exits with an error.
\<close>

definition no_fname_date :: "string \<Rightarrow> timestamp option" where
  "no_fname_date fname = None"

definition keep_all :: "raster \<Rightarrow> topo \<Rightarrow> raster" where
  "keep_all r topo_ds = r"

definition warp_failing :: "string list \<Rightarrow> string \<Rightarrow> error + raster" where
  "warp_failing bad f = (if f \<in> set bad then Inl CalledProcessError else Inr warped)"

text \<open>
  The object that \<^verbatim>\<open>run_grm\<close> builds for a flight over the Tuolumne with a given topo
  and date.
\<close>

definition flight :: "topo \<Rightarrow> timestamp \<Rightarrow> grm" where
  "flight topo_ds d =
     \<lparr>self_image = ''USCATE_SUPERsnow_depth_50p0m_agg.tif'',
      self_basin = basin_display_name ''tuolumne'',
      self_date = Date_value d,
      self_now = ''2020-06-01 12:00:00'',
      self_topo_ds = topo_ds,
      self_working_file = warped,
      version = ''0.14.6''\<rparr>"

text \<open>
  The output folder after the tool has run once, on an empty folder, for the flight of
  2020-04-14 over grid A; and the collection of water year 2020 in it.
\<close>

definition folder_A :: output_folder where
  "folder_A =
     snd (add_to_collection no_fname_date keep_all
            (flight topo_A (to_datetime 2020 4 14 0 0 0)) Map.empty)"

definition collection_A :: collection where
  "collection_A = the (folder_A 2020)"

text \<open>
  The output folder after the tool has run once, on an empty folder, for a flight stamped
  2020-04-14 02:00.
\<close>

definition folder_0200 :: output_folder where
  "folder_0200 =
     snd (add_to_collection no_fname_date keep_all
            (flight topo_A (to_datetime 2020 4 14 2 0 0)) Map.empty)"

text \<open>
  Batches of three images over the Tuolumne, named after their flight dates. What
  \<^verbatim>\<open>parse_fname_date\<close> returns for these names is given as a table. In the first batch
  the dates differ; in the second the first two images were flown on the same day. No
  \<^verbatim>\<open>--dates\<close> are given and errors are caught.
\<close>

definition fname_dates :: "string \<Rightarrow> timestamp option" where
  "fname_dates =
     map_of [(''USCATE20200301_depth.tif'', to_datetime 2020 3 1 0 0 0),
             (''USCATE20200414_depth.tif'', to_datetime 2020 4 14 0 0 0),
             (''USCATB20200414_depth.tif'', to_datetime 2020 4 14 0 0 0),
             (''USCATE20200520_depth.tif'', to_datetime 2020 5 20 0 0 0)]"

definition batch :: "string list \<Rightarrow> timestamp args" where
  "batch images =
     \<lparr>arg_images = images, arg_dates = [], arg_debug = False, arg_allow_exceptions = False\<rparr>"

definition three_days :: "string list" where
  "three_days =
     [''USCATE20200301_depth.tif'', ''USCATE20200414_depth.tif'', ''USCATE20200520_depth.tif'']"

definition two_days :: "string list" where
  "two_days =
     [''USCATE20200414_depth.tif'', ''USCATB20200414_depth.tif'', ''USCATE20200520_depth.tif'']"

definition tuolumne :: "string list \<Rightarrow> setting" where
  "tuolumne bad =
     \<lparr>arg_topo = topo_A, arg_basin = ''tuolumne'', clock = ''2020-06-01 12:00:00'',
      package_version = ''0.14.6'', regrid = warp_failing bad, mask_tool = keep_all,
      fname_parser = fname_dates\<rparr>"

section \<open>The time index (claims C1 and C2)\<close>

lemma np_where_eq_empty: "np_where_eq vs t = [] \<longleftrightarrow> t \<notin> set vs"
  by (auto simp: np_where_eq_def filter_empty_conv in_set_conv_nth)

lemma np_where_eq_first:
  assumes "np_where_eq vs t \<noteq> []"
  shows "np_where_eq vs t ! 0 < length vs \<and> vs ! (np_where_eq vs t ! 0) = t
         \<and> (\<forall>j < np_where_eq vs t ! 0. vs ! j \<noteq> t)"
proof -
  let ?idx = "np_where_eq vs t"
  obtain i rest where idx: "?idx = i # rest"
    using assms by (cases ?idx) auto
  have "i \<in> set ?idx"
    by (simp add: idx)
  then have hit: "i < length vs \<and> vs ! i = t"
    by (simp add: np_where_eq_def)
  have "sorted ?idx"
    unfolding np_where_eq_def by (rule sorted_wrt_filter) simp
  then have least: "\<forall>k \<in> set rest. i \<le> k"
    by (simp add: idx)
  have "vs ! j \<noteq> t" if "j < i" for j
  proof
    assume "vs ! j = t"
    with that hit have "j \<in> set ?idx"
      by (simp add: np_where_eq_def)
    with idx that least show False
      by auto
  qed
  with hit show ?thesis
    by (simp add: idx)
qed

lemma get_time_index_fst:
  assumes "var_time ds = Some tvar"
  shows "fst (get_time_index d ds) =
           Inr (let t = date2num (d + to_timedelta_h 23) (units tvar) (calendar tvar)
                in if t \<in> set (time_values tvar) then np_where_eq (time_values tvar) t ! 0
                   else length (time_values tvar))"
  using assms np_where_eq_empty [of "time_values tvar"]
  by (auto simp: get_time_index_def Let_def)

text \<open>
  Claim C1. For a collection with a time variable whose units are hours since the epoch
  \<open>e\<close>, and an observation date \<open>d\<close>, \<^verbatim>\<open>get_time_index\<close> returns an index \<open>i\<close>
  determined by the time value \<open>t\<close>, the hours from \<open>e\<close> to \<open>d\<close> plus 23 hours: if \<open>t\<close>
  occurs in the time axis, \<open>i\<close> is the first position holding it; otherwise \<open>i\<close> is the
  length of the axis.
\<close>

theorem get_time_index_position:
  assumes "var_time ds = Some tvar" and "units tvar = Hours_since e"
    and "t = of_int (d + 23 * 3600 - e) / 3600"
  shows "\<exists>i. fst (get_time_index d ds) = Inr i \<and>
           (if t \<in> set (time_values tvar)
            then i < length (time_values tvar) \<and> time_values tvar ! i = t
                 \<and> (\<forall>j < i. time_values tvar ! j \<noteq> t)
            else i = length (time_values tvar))"
proof -
  have t: "date2num (d + to_timedelta_h 23) (units tvar) (calendar tvar) = t"
    using assms(2,3) by (simp add: date2num_def to_timedelta_h_def)
  show ?thesis
  proof (cases "t \<in> set (time_values tvar)")
    case True
    then have "np_where_eq (time_values tvar) t \<noteq> []"
      by (simp add: np_where_eq_empty)
    from np_where_eq_first [OF this] True show ?thesis
      by (simp add: get_time_index_fst [OF assms(1)] t)
  next
    case False
    then show ?thesis
      by (simp add: get_time_index_fst [OF assms(1)] t)
  qed
qed

text \<open>
  The collection of water year 2020 holds the flight of 2020-04-14 at 4727 hours: that
  date gets index 0 again, and 2020-04-20 gets the append position 1.
\<close>

theorem get_time_index_position_witness:
  "var_time collection_A =
     Some \<lparr>units = Hours_since (to_datetime 2019 10 1 0 0 0), calendar = ''standard'',
           time_values = [4727]\<rparr>
   \<and> fst (get_time_index (to_datetime 2020 4 14 0 0 0) collection_A) = Inr 0
   \<and> fst (get_time_index (to_datetime 2020 4 20 0 0 0) collection_A) = Inr 1"
proof -
  let ?tv = "\<lparr>units = Hours_since (to_datetime 2019 10 1 0 0 0), calendar = ''standard'',
              time_values = [4727]\<rparr>"
  have tv: "var_time collection_A = Some ?tv"
    by code_simp
  have t1: "(4727 :: rat) =
      of_int (to_datetime 2020 4 14 0 0 0 + 23 * 3600 - to_datetime 2019 10 1 0 0 0) / 3600"
    by code_simp
  have t2: "(4871 :: rat) =
      of_int (to_datetime 2020 4 20 0 0 0 + 23 * 3600 - to_datetime 2019 10 1 0 0 0) / 3600"
    by code_simp
  have "fst (get_time_index (to_datetime 2020 4 14 0 0 0) collection_A) = Inr 0"
    using get_time_index_position [OF tv _ t1] by simp
  moreover have "fst (get_time_index (to_datetime 2020 4 20 0 0 0) collection_A) = Inr 1"
    using get_time_index_position [OF tv _ t2] by simp
  ultimately show ?thesis
    using tv by simp
qed

lemma get_time_index_snd:
  assumes "var_time ds = Some tvar"
  shows "snd (get_time_index d ds) =
           ds\<lparr>var_time := Some (tvar\<lparr>time_values :=
                 (let t = date2num (d + to_timedelta_h 23) (units tvar) (calendar tvar)
                  in if t \<in> set (time_values tvar) then time_values tvar
                     else time_values tvar @ [t])\<rparr>)\<rparr>"
proof -
  let ?t = "date2num (d + to_timedelta_h 23) (units tvar) (calendar tvar)"
  let ?vs = "time_values tvar"
  show ?thesis
  proof (cases "?t \<in> set ?vs")
    case True
    then have ne: "np_where_eq ?vs ?t \<noteq> []"
      by (simp add: np_where_eq_empty)
    from np_where_eq_first [OF ne]
    have lt: "np_where_eq ?vs ?t ! 0 < length ?vs" and at: "?vs ! (np_where_eq ?vs ?t ! 0) = ?t"
      by simp_all
    have "?vs[np_where_eq ?vs ?t ! 0 := ?t] = ?vs"
      using list_update_id [of ?vs "np_where_eq ?vs ?t ! 0"] by (simp only: at)
    with lt have "write_time ?vs (np_where_eq ?vs ?t ! 0) ?t = ?vs"
      by (simp add: write_time_def)
    with True ne assms show ?thesis
      by (auto simp: get_time_index_def Let_def)
  next
    case False
    then have "np_where_eq ?vs ?t = []"
      by (simp add: np_where_eq_empty)
    with False assms show ?thesis
      by (simp add: get_time_index_def Let_def write_time_def)
  qed
qed

lemma np_where_eq_snoc:
  assumes "t \<notin> set vs"
  shows "np_where_eq (vs @ [t]) t ! 0 = length vs"
proof -
  have ne: "np_where_eq (vs @ [t]) t \<noteq> []"
    by (simp add: np_where_eq_empty)
  let ?i = "np_where_eq (vs @ [t]) t ! 0"
  from np_where_eq_first [OF ne] have i: "?i < Suc (length vs)" "(vs @ [t]) ! ?i = t"
    by simp_all
  have "\<not> ?i < length vs"
  proof
    assume "?i < length vs"
    with i(2) have "vs ! ?i = t"
      by (simp add: nth_append)
    with \<open>?i < length vs\<close> assms show False
      by (metis nth_mem)
  qed
  with i(1) show ?thesis
    by simp
qed

text \<open>
  Claim C2, as amended. \<^verbatim>\<open>get_time_index\<close> is not read-only: it stores the time
  value \<open>t\<close> at the index it returns. What it leaves alone is everything else: the
  attributes, the coordinates, the depth variable, the units and calendar of the time
  variable and the entries already on the time axis. When \<open>t\<close> is already on the axis
  the collection is unchanged; otherwise \<open>t\<close> is appended and the axis grows by one.
  Computing the index again on the resulting collection returns the same index and
  changes nothing.
\<close>

theorem get_time_index_frame:
  assumes "var_time ds = Some tvar"
    and "t = date2num (d + to_timedelta_h 23) (units tvar) (calendar tvar)"
    and "ds' = snd (get_time_index d ds)"
  shows "attrs ds' = attrs ds \<and> var_x ds' = var_x ds \<and> var_y ds' = var_y ds
         \<and> var_depth ds' = var_depth ds
         \<and> map_option units (var_time ds') = Some (units tvar)
         \<and> map_option calendar (var_time ds') = Some (calendar tvar)
         \<and> map_option time_values (var_time ds') =
             Some (if t \<in> set (time_values tvar) then time_values tvar
                   else time_values tvar @ [t])
         \<and> (t \<in> set (time_values tvar) \<longrightarrow> ds' = ds)
         \<and> fst (get_time_index d ds') = fst (get_time_index d ds)
         \<and> snd (get_time_index d ds') = ds'"
proof -
  let ?vs = "time_values tvar"
  let ?vs' = "if t \<in> set ?vs then ?vs else ?vs @ [t]"
  let ?tvar' = "tvar\<lparr>time_values := ?vs'\<rparr>"
  have ds': "ds' = ds\<lparr>var_time := Some ?tvar'\<rparr>"
    using assms by (simp add: get_time_index_snd Let_def)
  have same: "ds' = ds" if "t \<in> set ?vs"
    using that assms(1) by (simp add: ds')
  have tv': "var_time ds' = Some ?tvar'"
    by (simp add: ds')
  have t': "date2num (d + to_timedelta_h 23) (units ?tvar') (calendar ?tvar') = t"
    by (simp add: assms(2))
  have mem: "t \<in> set (time_values ?tvar')"
    by simp
  have again: "snd (get_time_index d ds') = ds'"
    using get_time_index_snd [OF tv', of d] mem unfolding t' Let_def
    by (simp add: ds')
  have idx: "fst (get_time_index d ds') = fst (get_time_index d ds)"
  proof (cases "t \<in> set ?vs")
    case True
    then show ?thesis
      by (simp add: same)
  next
    case False
    have "fst (get_time_index d ds') = Inr (np_where_eq (?vs @ [t]) t ! 0)"
      using get_time_index_fst [OF tv', of d] False unfolding t' Let_def by simp
    moreover have "fst (get_time_index d ds) = Inr (length ?vs)"
      using get_time_index_fst [OF assms(1), of d] False assms(2) by (simp add: Let_def)
    ultimately show ?thesis
      by (simp add: np_where_eq_snoc [OF False])
  qed
  from same again idx show ?thesis
    by (simp add: ds')
qed

text \<open>
  Claim C2 as stated fails: for a date not yet in the collection of water year 2020, the
  time axis has one entry before the index computation and two after it.
\<close>

theorem get_time_index_not_read_only:
  "map_option time_values (var_time collection_A) = Some [4727]
   \<and> map_option time_values
        (var_time (snd (get_time_index (to_datetime 2020 4 20 0 0 0) collection_A))) =
       Some [4727, 4871]
   \<and> snd (get_time_index (to_datetime 2020 4 20 0 0 0) collection_A) \<noteq> collection_A"
proof -
  have a: "map_option time_values (var_time collection_A) = Some [4727]"
    by code_simp
  have b: "map_option time_values
        (var_time (snd (get_time_index (to_datetime 2020 4 20 0 0 0) collection_A))) =
       Some [4727, 4871]"
    by code_simp
  from a b have "snd (get_time_index (to_datetime 2020 4 20 0 0 0) collection_A) \<noteq> collection_A"
    by auto
  with a b show ?thesis
    by simp
qed

text \<open>
  On the collection of water year 2020: the date 2020-04-20 is appended as 4871 hours
  and the depth variable is untouched; the date 2020-04-14, already present, leaves the
  collection as it is.
\<close>

theorem get_time_index_frame_witness:
  "var_time collection_A =
     Some \<lparr>units = Hours_since (to_datetime 2019 10 1 0 0 0), calendar = ''standard'',
           time_values = [4727]\<rparr>
   \<and> var_depth (snd (get_time_index (to_datetime 2020 4 20 0 0 0) collection_A)) =
       var_depth collection_A
   \<and> map_option time_values
        (var_time (snd (get_time_index (to_datetime 2020 4 20 0 0 0) collection_A))) =
       Some [4727, 4871]
   \<and> snd (get_time_index (to_datetime 2020 4 14 0 0 0) collection_A) = collection_A"
proof -
  let ?tv = "\<lparr>units = Hours_since (to_datetime 2019 10 1 0 0 0), calendar = ''standard'',
              time_values = [4727]\<rparr>"
  have tv: "var_time collection_A = Some ?tv"
    by code_simp
  have t1: "date2num (to_datetime 2020 4 14 0 0 0 + to_timedelta_h 23) (units ?tv) (calendar ?tv) = 4727"
    by code_simp
  have t2: "date2num (to_datetime 2020 4 20 0 0 0 + to_timedelta_h 23) (units ?tv) (calendar ?tv) = 4871"
    by code_simp
  from get_time_index_frame [OF tv t1 [symmetric] refl] get_time_index_frame [OF tv t2 [symmetric] refl] tv
  show ?thesis
    by simp
qed

section \<open>The water year (claim C3)\<close>

text \<open>
  Claim C3. The water year computed for a date is the calendar year when the month is at
  most 10 and the calendar year plus one when the month is greater than 10; 2020-04-14
  and 2019-11-03 both give water year 2020.
\<close>

theorem water_year_rule:
  "(month_of d \<le> 10 \<longrightarrow> fst (water_year_of d) = year_of d)
   \<and> (month_of d > 10 \<longrightarrow> fst (water_year_of d) = year_of d + 1)
   \<and> fst (water_year_of (to_datetime 2020 4 14 0 0 0)) = 2020
   \<and> fst (water_year_of (to_datetime 2019 11 3 0 0 0)) = 2020"
proof -
  have "fst (water_year_of (to_datetime 2020 4 14 0 0 0)) = 2020"
    by code_simp
  moreover have "fst (water_year_of (to_datetime 2019 11 3 0 0 0)) = 2020"
    by code_simp
  ultimately show ?thesis
    by (simp add: water_year_of_def Let_def)
qed

theorem water_year_rule_witness:
  "month_of (to_datetime 2020 10 31 12 0 0) \<le> 10
   \<and> fst (water_year_of (to_datetime 2020 10 31 12 0 0)) = year_of (to_datetime 2020 10 31 12 0 0)
   \<and> month_of (to_datetime 2019 11 3 0 0 0) > 10
   \<and> fst (water_year_of (to_datetime 2019 11 3 0 0 0)) = year_of (to_datetime 2019 11 3 0 0 0) + 1"
proof -
  have a: "month_of (to_datetime 2020 10 31 12 0 0) \<le> 10"
    by code_simp
  have b: "month_of (to_datetime 2019 11 3 0 0 0) > 10"
    by code_simp
  from a b water_year_rule [of "to_datetime 2020 10 31 12 0 0"]
    water_year_rule [of "to_datetime 2019 11 3 0 0 0"]
  show ?thesis
    by blast
qed

section \<open>The consistency checks (claims C4 and C10)\<close>

lemma find_keyword_bound: "find_keyword keys basin (Some b) \<noteq> None"
  by (induction keys arbitrary: b) auto

lemma find_keyword_unbound: "find_keyword keys basin None = None \<longleftrightarrow> keys = []"
  using find_keyword_bound [of "tl keys" basin] by (cases keys) auto

text \<open>
  Claim C10. When every word of the lower-cased mask name, split at blanks, is
  \<^verbatim>\<open>river\<close> or \<^verbatim>\<open>basin\<close>, the keyword list is empty, the loop never assigns
  \<^verbatim>\<open>found\<close>, and \<^verbatim>\<open>check_topo_basin_name\<close> ends with the unbound-variable error: it
  neither passes nor raises the mask-mismatch \<^verbatim>\<open>ValueError\<close>.
\<close>

theorem check_topo_basin_name_unbound:
  assumes "\<forall>w \<in> set (split_on CHR '' '' (lower (mask_long_name topo_ds))).
             w = ''river'' \<or> w = ''basin''"
  shows "mask_keywords (lower (mask_long_name topo_ds)) = []
         \<and> check_topo_basin_name basin topo_ds = Inl (UnboundLocalError ''found'')"
proof -
  have "mask_keywords (lower (mask_long_name topo_ds)) = []"
    using assms by (auto simp: mask_keywords_def filter_empty_conv)
  then show ?thesis
    by (simp add: check_topo_basin_name_def)
qed

text \<open>The mask name \<^verbatim>\<open>River Basin\<close> is such a name.\<close>

theorem check_topo_basin_name_unbound_witness:
  "split_on CHR '' '' (lower ''River Basin'') = [''river'', ''basin'']
   \<and> check_topo_basin_name (basin_display_name ''tuolumne'')
         (topo_A\<lparr>mask_long_name := ''River Basin''\<rparr>) = Inl (UnboundLocalError ''found'')"
proof -
  have s: "split_on CHR '' '' (lower ''River Basin'') = [''river'', ''basin'']"
    by code_simp
  have "\<forall>w \<in> set (split_on CHR '' '' (lower (mask_long_name (topo_A\<lparr>mask_long_name := ''River Basin''\<rparr>)))).
          w = ''river'' \<or> w = ''basin''"
    by (simp add: s)
  from check_topo_basin_name_unbound [OF this] s show ?thesis
    by simp
qed

text \<open>With at least one keyword the check passes or raises the mask-mismatch error.\<close>

lemma check_topo_basin_name_otherwise:
  assumes "mask_keywords (lower (mask_long_name topo_ds)) \<noteq> []"
  shows "check_topo_basin_name basin topo_ds = Inr ()
         \<or> check_topo_basin_name basin topo_ds =
              Inl (ValueError (Mask_not_associated (lower (mask_long_name topo_ds)) basin))"
proof -
  obtain found where "find_keyword (mask_keywords (lower (mask_long_name topo_ds))) basin None = Some found"
    using assms find_keyword_unbound by (metis not_Some_eq)
  then show ?thesis
    by (simp add: check_topo_basin_name_def handle_error_def)
qed

lemma np_max_Max: "vs \<noteq> [] \<Longrightarrow> np_max vs = Inr (Max (set vs))"
  by (cases vs) (simp_all add: np_max_def Max.set_eq_fold [symmetric])

lemma np_min_Min: "vs \<noteq> [] \<Longrightarrow> np_min vs = Inr (Min (set vs))"
  by (cases vs) (simp_all add: np_min_def Min.set_eq_fold [symmetric])

lemma domain_differs_eq:
  assumes "v_topo \<noteq> []" and "v_lidar \<noteq> []"
  shows "domain_differs v_topo v_lidar err =
           Inr (err \<or> Max (set v_topo) \<noteq> Max (set v_lidar) \<or> Min (set v_topo) \<noteq> Min (set v_lidar)
                  \<or> length v_topo \<noteq> length v_lidar)"
  using assms by (simp add: domain_differs_def and_then_def np_max_Max np_min_Min)

lemma check_domain_match_eq:
  assumes "topo_x topo_ds \<noteq> []" "topo_y topo_ds \<noteq> []" "var_x ds \<noteq> []" "var_y ds \<noteq> []"
  shows "check_domain_match topo_ds ds =
           handle_error Domain_mismatch
             (Max (set (topo_x topo_ds)) \<noteq> Max (set (var_x ds))
              \<or> Min (set (topo_x topo_ds)) \<noteq> Min (set (var_x ds))
              \<or> length (topo_x topo_ds) \<noteq> length (var_x ds)
              \<or> Max (set (topo_y topo_ds)) \<noteq> Max (set (var_y ds))
              \<or> Min (set (topo_y topo_ds)) \<noteq> Min (set (var_y ds))
              \<or> length (topo_y topo_ds) \<noteq> length (var_y ds))"
  using assms by (auto simp: check_domain_match_def domain_differs_eq and_then_def handle_error_def)

lemma run_checks_first_failure:
  "run_checks g d water_year ds =
     (case check_basin_match (self_basin g) ds of Inl e \<Rightarrow> Inl e | Inr _ \<Rightarrow>
      case check_domain_match (self_topo_ds g) ds of Inl e \<Rightarrow> Inl e | Inr _ \<Rightarrow>
      case check_water_year_match water_year ds of Inl e \<Rightarrow> Inl e | Inr _ \<Rightarrow>
      case check_overwrite d ds of Inl e \<Rightarrow> Inl e | Inr _ \<Rightarrow>
      check_topo_basin_name (self_basin g) (self_topo_ds g))"
  by (simp add: run_checks_def and_then_def)

text \<open>
  Claim C4. For an image whose water year already has a collection file: if any of the
  five checks raises, \<^verbatim>\<open>add_to_collection\<close> ends with an error of one of the checks (the
  first that raises, in the order basin, domain, water year, duplicate date, mask name)
  and the output folder is exactly as before, so no write has happened. In particular,
  when the basin check passes and the coordinate vectors of topo and collection differ
  in a maximum, a minimum or a length, the error is the domain-mismatch
  \<^verbatim>\<open>ValueError\<close> and the folder, with the collection's time axis, is unchanged.
  When all five checks pass, the writes of lines 319--352 start from the collection as
  the checks found it.
\<close>

theorem checks_precede_writes:
  assumes "image_date parse_fname_date g = Inr d"
    and "water_year_of d = (water_year, start_yr)"
    and "files water_year = Some ds"
  shows "(isl (check_basin_match (self_basin g) ds)
            \<or> isl (check_domain_match (self_topo_ds g) ds)
            \<or> isl (check_water_year_match water_year ds)
            \<or> isl (check_overwrite d ds)
            \<or> isl (check_topo_basin_name (self_basin g) (self_topo_ds g))
          \<longrightarrow> (\<exists>e. add_to_collection parse_fname_date mask_nc g files = (Some e, files)
                   \<and> Inl e \<in> {check_basin_match (self_basin g) ds,
                                check_domain_match (self_topo_ds g) ds,
                                check_water_year_match water_year ds,
                                check_overwrite d ds,
                                check_topo_basin_name (self_basin g) (self_topo_ds g)}))
         \<and> (check_basin_match (self_basin g) ds = Inr ()
              \<and> topo_x (self_topo_ds g) \<noteq> [] \<and> topo_y (self_topo_ds g) \<noteq> []
              \<and> var_x ds \<noteq> [] \<and> var_y ds \<noteq> []
              \<and> (Max (set (topo_x (self_topo_ds g))) \<noteq> Max (set (var_x ds))
                  \<or> Min (set (topo_x (self_topo_ds g))) \<noteq> Min (set (var_x ds))
                  \<or> length (topo_x (self_topo_ds g)) \<noteq> length (var_x ds)
                  \<or> Max (set (topo_y (self_topo_ds g))) \<noteq> Max (set (var_y ds))
                  \<or> Min (set (topo_y (self_topo_ds g))) \<noteq> Min (set (var_y ds))
                  \<or> length (topo_y (self_topo_ds g)) \<noteq> length (var_y ds))
          \<longrightarrow> add_to_collection parse_fname_date mask_nc g files =
                (Some (ValueError Domain_mismatch), files))
         \<and> (check_basin_match (self_basin g) ds = Inr ()
              \<and> check_domain_match (self_topo_ds g) ds = Inr ()
              \<and> check_water_year_match water_year ds = Inr ()
              \<and> check_overwrite d ds = Inr ()
              \<and> check_topo_basin_name (self_basin g) (self_topo_ds g) = Inr ()
          \<longrightarrow> add_to_collection parse_fname_date mask_nc g files =
                append_image mask_nc g d water_year ds files)"
proof (intro conjI impI)
  have existing: "add_to_collection parse_fname_date mask_nc g files =
           (case run_checks g d water_year ds of
              Inl e \<Rightarrow> (Some e, files)
            | Inr _ \<Rightarrow> append_image mask_nc g d water_year ds files)"
    using assms by (simp add: add_to_collection_def)
  assume "isl (check_basin_match (self_basin g) ds)
            \<or> isl (check_domain_match (self_topo_ds g) ds)
            \<or> isl (check_water_year_match water_year ds)
            \<or> isl (check_overwrite d ds)
            \<or> isl (check_topo_basin_name (self_basin g) (self_topo_ds g))"
  then show "\<exists>e. add_to_collection parse_fname_date mask_nc g files = (Some e, files)
                   \<and> Inl e \<in> {check_basin_match (self_basin g) ds,
                                check_domain_match (self_topo_ds g) ds,
                                check_water_year_match water_year ds,
                                check_overwrite d ds,
                                check_topo_basin_name (self_basin g) (self_topo_ds g)}"
    unfolding existing run_checks_first_failure
    by (auto split: sum.splits)
next
  have existing: "add_to_collection parse_fname_date mask_nc g files =
           (case run_checks g d water_year ds of
              Inl e \<Rightarrow> (Some e, files)
            | Inr _ \<Rightarrow> append_image mask_nc g d water_year ds files)"
    using assms by (simp add: add_to_collection_def)
  assume a: "check_basin_match (self_basin g) ds = Inr ()
              \<and> topo_x (self_topo_ds g) \<noteq> [] \<and> topo_y (self_topo_ds g) \<noteq> []
              \<and> var_x ds \<noteq> [] \<and> var_y ds \<noteq> []
              \<and> (Max (set (topo_x (self_topo_ds g))) \<noteq> Max (set (var_x ds))
                  \<or> Min (set (topo_x (self_topo_ds g))) \<noteq> Min (set (var_x ds))
                  \<or> length (topo_x (self_topo_ds g)) \<noteq> length (var_x ds)
                  \<or> Max (set (topo_y (self_topo_ds g))) \<noteq> Max (set (var_y ds))
                  \<or> Min (set (topo_y (self_topo_ds g))) \<noteq> Min (set (var_y ds))
                  \<or> length (topo_y (self_topo_ds g)) \<noteq> length (var_y ds))"
  then have "check_domain_match (self_topo_ds g) ds = Inl (ValueError Domain_mismatch)"
    by (simp add: check_domain_match_eq handle_error_def)
  with a show "add_to_collection parse_fname_date mask_nc g files =
                (Some (ValueError Domain_mismatch), files)"
    unfolding existing run_checks_first_failure
    by simp
next
  have existing: "add_to_collection parse_fname_date mask_nc g files =
           (case run_checks g d water_year ds of
              Inl e \<Rightarrow> (Some e, files)
            | Inr _ \<Rightarrow> append_image mask_nc g d water_year ds files)"
    using assms by (simp add: add_to_collection_def)
  assume "check_basin_match (self_basin g) ds = Inr ()
              \<and> check_domain_match (self_topo_ds g) ds = Inr ()
              \<and> check_water_year_match water_year ds = Inr ()
              \<and> check_overwrite d ds = Inr ()
              \<and> check_topo_basin_name (self_basin g) (self_topo_ds g) = Inr ()"
  then show "add_to_collection parse_fname_date mask_nc g files =
                append_image mask_nc g d water_year ds files"
    unfolding existing run_checks_first_failure
    by simp
qed

lemma folder_A_2020: "folder_A 2020 = Some collection_A"
proof -
  have "folder_A 2020 \<noteq> None"
    by code_simp
  then show ?thesis
    by (auto simp: collection_A_def)
qed

text \<open>
  A later flight of the same water year comes with the topo of the smaller extent: the
  maxima of \<^verbatim>\<open>x\<close> differ, the run ends with the domain-mismatch error and the folder
  is the one it started from.
\<close>

theorem checks_precede_writes_witness:
  "folder_A 2020 = Some collection_A
   \<and> Max (set (topo_x topo_B)) \<noteq> Max (set (var_x collection_A))
   \<and> add_to_collection no_fname_date keep_all (flight topo_B (to_datetime 2020 4 20 0 0 0)) folder_A
       = (Some (ValueError Domain_mismatch), folder_A)"
proof -
  let ?d = "to_datetime 2020 4 20 0 0 0"
  let ?g = "flight topo_B ?d"
  have d: "image_date no_fname_date ?g = Inr ?d"
    by (simp add: image_date_def flight_def)
  have wy: "water_year_of ?d = (2020, Some 2019)"
    by code_simp
  have basin: "check_basin_match (self_basin ?g) collection_A = Inr ()"
    by code_simp
  have ne: "topo_x (self_topo_ds ?g) \<noteq> [] \<and> topo_y (self_topo_ds ?g) \<noteq> []
            \<and> var_x collection_A \<noteq> [] \<and> var_y collection_A \<noteq> []"
    by code_simp
  have mx: "Max (set (topo_x topo_B)) \<noteq> Max (set (var_x collection_A))"
    by code_simp
  have g: "self_topo_ds ?g = topo_B"
    by (simp add: flight_def)
  from checks_precede_writes [where files = folder_A and mask_nc = keep_all, OF d wy folder_A_2020]
    basin ne mx
  have "add_to_collection no_fname_date keep_all ?g folder_A
          = (Some (ValueError Domain_mismatch), folder_A)"
    unfolding g by blast
  with mx folder_A_2020 show ?thesis
    by simp
qed

section \<open>Two flights stamped on the same day (claim C5)\<close>

text \<open>
  What the duplicate-date check decides: it raises exactly when the day of the new flight
  is the day of a recorded time value.
\<close>

lemma check_overwrite_iff:
  assumes "var_time ds = Some tvar"
  shows "check_overwrite d ds = Inl (ValueError Date_already_present)
           \<longleftrightarrow> (\<exists>v \<in> set (time_values tvar).
                  date_of (num2date v (units tvar) (calendar tvar)) = date_of d)"
    and "check_overwrite d ds = Inr ()
           \<longleftrightarrow> (\<forall>v \<in> set (time_values tvar).
                  date_of (num2date v (units tvar) (calendar tvar)) \<noteq> date_of d)"
  using assms by (auto simp: check_overwrite_def handle_error_def image_iff)

text \<open>
  A flight stamped before 01:00 is recorded on its own day, and a flight of the same day
  is then rejected.
\<close>

lemma num2date_date2num: "num2date (date2num d u cal) u cal' = d"
proof -
  have "(of_int (d - epoch_of u) / 3600 :: rat) * 3600 = of_int (d - epoch_of u)"
    by simp
  then have "\<lfloor>(of_int (d - epoch_of u) / 3600 :: rat) * 3600\<rfloor> = d - epoch_of u"
    by (simp only: floor_of_int)
  then show ?thesis
    unfolding num2date_def date2num_def by linarith
qed

lemma date_of_plus_23h:
  assumes "d mod 86400 < 3600"
  shows "date_of (d + to_timedelta_h 23) = date_of d"
proof -
  have "d + 23 * 3600 = 86400 * (d div 86400) + (d mod 86400 + 82800)"
    by simp
  moreover have "0 \<le> d mod 86400 + 82800"
    by (simp add: add_nonneg_nonneg)
  moreover have "d mod 86400 + 82800 < 86400"
    using assms by simp
  ultimately have "(d + 23 * 3600) div 86400 = d div 86400"
    by (rule int_div_pos_eq)
  then show ?thesis
    by (simp add: date_of_def to_timedelta_h_def)
qed

lemma same_day_rejected_before_one:
  assumes "var_time ds = Some tvar"
    and "d1 mod 86400 < 3600"
    and "date_of d1 = date_of d2"
  shows "check_overwrite d2 (snd (get_time_index d1 ds)) = Inl (ValueError Date_already_present)"
proof -
  let ?t = "date2num (d1 + to_timedelta_h 23) (units tvar) (calendar tvar)"
  let ?vs = "if ?t \<in> set (time_values tvar) then time_values tvar else time_values tvar @ [?t]"
  let ?tvar = "tvar\<lparr>time_values := ?vs\<rparr>"
  have tv: "var_time (snd (get_time_index d1 ds)) = Some ?tvar"
    using assms(1) by (simp add: get_time_index_snd Let_def)
  have "?t \<in> set (time_values ?tvar)"
    by simp
  moreover have "date_of (num2date ?t (units ?tvar) (calendar ?tvar)) = date_of d2"
    using assms(2,3) by (simp add: num2date_date2num date_of_plus_23h)
  ultimately show ?thesis
    unfolding check_overwrite_iff(1) [OF tv] by blast
qed

text \<open>
  Claim C5 does not hold of the code. The time recorded for a flight is its timestamp
  plus 23 hours (the comment in \<^verbatim>\<open>get_time_index\<close> reads ``Set all images to 2300''),
  and \<^verbatim>\<open>check_overwrite\<close> compares the new flight's day with the days of the recorded
  times. A flight stamped 02:00 is therefore recorded on the next day at 01:00, and a
  second, different flight of the same day passes the duplicate-date check and is
  appended: the time axis then holds 4729 and 4730 hours.
\<close>

theorem duplicate_day_not_rejected:
  "to_datetime 2020 4 14 2 0 0 \<noteq> to_datetime 2020 4 14 3 0 0
   \<and> date_of (to_datetime 2020 4 14 2 0 0) = date_of (to_datetime 2020 4 14 3 0 0)
   \<and> fst (add_to_collection no_fname_date keep_all
            (flight topo_A (to_datetime 2020 4 14 2 0 0)) Map.empty) = None
   \<and> check_overwrite (to_datetime 2020 4 14 3 0 0) (the (folder_0200 2020)) = Inr ()
   \<and> fst (add_to_collection no_fname_date keep_all
            (flight topo_A (to_datetime 2020 4 14 3 0 0)) folder_0200) = None
   \<and> map_option time_values
        (var_time (the (snd (add_to_collection no_fname_date keep_all
                               (flight topo_A (to_datetime 2020 4 14 3 0 0)) folder_0200) 2020)))
       = Some [4729, 4730]"
  by code_simp

section \<open>Creating the collection (claim C6)\<close>

text \<open>
  From January to October the first flight of a water year creates the collection: the
  coordinates are the topo's, the time variable counts hours since October 1 of the year
  before in the standard calendar and holds the flight's time, and the depth variable
  holds the masked raster at index 0.
\<close>

lemma create_lidar_netcdf_through_october:
  "create_lidar_netcdf g water_year (Some start_yr) = (None, ds) \<Longrightarrow>
     var_x ds = topo_x (self_topo_ds g) \<and> var_y ds = topo_y (self_topo_ds g)
     \<and> var_time ds = Some \<lparr>units = Hours_since (to_datetime start_yr 10 1 0 0 0),
                            calendar = ''standard'', time_values = []\<rparr>
     \<and> var_depth ds \<noteq> None
     \<and> attrs ds ''Title'' = Some (''ASO 50m Lidar Flights Over the '' @ self_basin g
                                   @ '' for Water Year '' @ str_int water_year @ ''.'')"
  by (auto simp: create_lidar_netcdf_def copy_nc_def Let_def)

lemma first_flight_through_october:
  assumes "image_date parse_fname_date g = Inr d"
    and "month_of d \<le> 10"
    and "files (year_of d) = None"
  shows "fst (add_to_collection parse_fname_date mask_nc g files) = None"
    and "map_option var_x (snd (add_to_collection parse_fname_date mask_nc g files) (year_of d))
           = Some (topo_x (self_topo_ds g))"
    and "map_option var_y (snd (add_to_collection parse_fname_date mask_nc g files) (year_of d))
           = Some (topo_y (self_topo_ds g))"
    and "Option.bind (snd (add_to_collection parse_fname_date mask_nc g files) (year_of d)) var_time
           = Some \<lparr>units = Hours_since (to_datetime (year_of d - 1) 10 1 0 0 0),
                   calendar = ''standard'',
                   time_values = [date2num (d + to_timedelta_h 23)
                      (Hours_since (to_datetime (year_of d - 1) 10 1 0 0 0)) ''standard'']\<rparr>"
    and "map_option (\<lambda>dv. depth_data dv 0)
           (Option.bind (snd (add_to_collection parse_fname_date mask_nc g files) (year_of d)) var_depth)
           = Some (Some (Band1 (mask_nc (on_disk (fill_and_flip (self_working_file g)))
                                  (self_topo_ds g))))"
  using assms
  by (simp_all add: add_to_collection_def water_year_of_def create_lidar_netcdf_def copy_nc_def
      append_image_def get_time_index_def write_time_def Let_def)

text \<open>In November and December it ends with the error, leaving the copy of the topo.\<close>

lemma first_flight_after_october:
  assumes "image_date parse_fname_date g = Inr d"
    and "month_of d > 10"
    and "files (year_of d + 1) = None"
  shows "add_to_collection parse_fname_date mask_nc g files =
           (Some (AttributeError ''start_yr''), files(year_of d + 1 \<mapsto> copy_nc (self_topo_ds g)))"
  using assms
  by (simp add: add_to_collection_def water_year_of_def create_lidar_netcdf_def Let_def)

text \<open>
  Claim C6 does not hold of the code for a first flight in November or December: the
  branch for months after October never assigns \<^verbatim>\<open>start_yr\<close>, so
  \<^verbatim>\<open>create_lidar_netcdf\<close> raises \<^verbatim>\<open>AttributeError\<close> after \<^verbatim>\<open>copy_nc\<close> has written the
  file, which is left without a time variable.
\<close>

theorem creation_fails_after_october:
  "water_year_of (to_datetime 2019 11 3 0 0 0) = (2020, None)
   \<and> fst (add_to_collection no_fname_date keep_all
            (flight topo_A (to_datetime 2019 11 3 0 0 0)) Map.empty)
       = Some (AttributeError ''start_yr'')
   \<and> map_option var_time
        (snd (add_to_collection no_fname_date keep_all
                (flight topo_A (to_datetime 2019 11 3 0 0 0)) Map.empty) 2020)
       = Some None"
  by code_simp

section \<open>Preparing the raster (claim C7)\<close>

text \<open>
  What lines 329--334 leave in the working file: the rows of \<^verbatim>\<open>Band1\<close> in reverse
  order, every cell with the value it had. The assignment of NaN goes to an array in
  memory that is never written back.
\<close>

lemma fill_and_flip_on_disk: "on_disk (fill_and_flip r) = r\<lparr>Band1 := rev (Band1 r)\<rparr>"
  by (simp add: fill_and_flip_def read_Band1_def write_Band1_def setitem_where_def flipud_def
      Let_def nth_append)

text \<open>
  Claim C7 does not hold of the code: the raster handed to \<^verbatim>\<open>mask_nc\<close> is flipped, but
  its no-data cell still holds the sentinel -9999, not NaN.
\<close>

theorem sentinel_survives_preparation:
  "on_disk (fill_and_flip warped) =
     \<lparr>Band1 = replicate 9 (replicate 10 (Num 2)) @ [Num (- 9999) # replicate 9 (Num 1)],
      FillValue = Num (- 9999)\<rparr>"
  by code_simp

section \<open>The batch driver (claims C8 and C9)\<close>

text \<open>The dictionary: its lookups, its keys and their sorted order.\<close>

lemma image_dict_fold:
  "map_of (fold (\<lambda>(k, v). AList.update k v) kvs acc) = map_of acc ++ map_of (rev kvs)"
proof (induction kvs arbitrary: acc)
  case Nil
  show ?case by simp
next
  case (Cons kv kvs)
  obtain k v where kv: "kv = (k, v)"
    by (cases kv)
  show ?case
    by (simp add: kv Cons.IH update_conv' fun_eq_iff map_add_def split: option.splits)
qed

lemma map_of_image_dict: "map_of (image_dict dates images) = map_of (rev (zip dates images))"
  by (simp add: image_dict_def image_dict_fold)

lemma keys_fold:
  "fst ` set (fold (\<lambda>(k, v). AList.update k v) kvs acc) = fst ` set acc \<union> fst ` set kvs"
proof (induction kvs arbitrary: acc)
  case Nil
  show ?case by simp
next
  case (Cons kv kvs)
  obtain k v where kv: "kv = (k, v)"
    by (cases kv)
  have "fst ` set (AList.update k v acc) = insert k (fst ` set acc)"
    by (simp add: dom_update)
  then show ?case
    by (simp add: kv Cons.IH)
qed

lemma distinct_fold:
  "distinct (map fst acc) \<Longrightarrow> distinct (map fst (fold (\<lambda>(k, v). AList.update k v) kvs acc))"
proof (induction kvs arbitrary: acc)
  case Nil
  then show ?case by simp
next
  case (Cons kv kvs)
  obtain k v where kv: "kv = (k, v)"
    by (cases kv)
  from Cons.prems have "distinct (map fst (AList.update k v acc))"
    by (rule distinct_update)
  then show ?case
    by (simp add: kv Cons.IH)
qed

lemma set_keys_image_dict:
  assumes "length dates = length images"
  shows "set (map fst (image_dict dates images)) = set dates"
proof -
  have "fst ` set (zip dates images) = set (map fst (zip dates images))"
    by simp
  also have "\<dots> = set dates"
    using assms by (simp only: map_fst_zip)
  finally show ?thesis
    by (simp add: image_dict_def keys_fold)
qed

lemma distinct_keys_image_dict: "distinct (map fst (image_dict dates images))"
  by (simp add: image_dict_def distinct_fold)

lemma sort_keys_image_dict:
  assumes "length dates = length images"
  shows "sort (map fst (image_dict dates images)) = sort (remdups dates)"
proof (rule sorted_distinct_set_unique)
  show "set (sort (map fst (image_dict dates images))) = set (sort (remdups dates))"
    using assms by (simp add: set_keys_image_dict del: set_map)
qed (simp_all add: distinct_keys_image_dict)

lemma length_keys_image_dict:
  assumes "length dates = length images"
  shows "length (map fst (image_dict dates images)) = card (set dates)"
  using distinct_card [OF distinct_keys_image_dict, of dates images] set_keys_image_dict [OF assms]
  by simp

text \<open>The loop, in terms of the runs it makes.\<close>

lemma run_each_images: "map fst (fst (run_each run kvs w)) = map snd kvs"
  by (induction kvs arbitrary: w) (auto simp: case_prod_beta Let_def)

lemma length_failed_images: "length (failed_images rs) \<le> length rs"
  by (simp add: failed_images_def)

lemma after_runs_step:
  "after_runs (p\<lparr>processing := processing p @ [f], world := w1\<rparr>) (rs, w2) =
     after_runs p ((f, None) # rs, w2)"
  "after_runs (p\<lparr>processing := processing p @ [f], world := w1,
                 skipping := skipping p @ [f], skips := skips p + 1\<rparr>) (rs, w2) =
     after_runs p ((f, Some e) # rs, w2)"
  by (simp_all add: after_runs_def failed_images_def)

lemma process_images_catch:
  assumes "\<forall>d \<in> set keys. map_of dict d \<noteq> None"
  shows "process_images run True dict keys p =
           Inr (after_runs p (run_each run (retained dict keys) (world p)))"
  using assms
proof (induction keys arbitrary: p)
  case Nil
  show ?case
    by (simp add: retained_def after_runs_def failed_images_def)
next
  case (Cons d ds)
  then obtain f where f: "map_of dict d = Some f"
    by auto
  obtain r w1 where r: "run d f (world p) = (r, w1)"
    by (cases "run d f (world p)")
  obtain rs w2 where rs: "run_each run (retained dict ds) w1 = (rs, w2)"
    by (cases "run_each run (retained dict ds) w1")
  have IH: "process_images run True dict ds q =
              Inr (after_runs q (run_each run (retained dict ds) (world q)))" for q
    using Cons by simp
  show ?case
  proof (cases r)
    case None
    with f r rs show ?thesis
      by (simp add: IH retained_def [of dict "d # ds"] retained_def [of dict ds, symmetric]
          after_runs_step)
  next
    case (Some e)
    with f r rs show ?thesis
      by (simp add: IH retained_def [of dict "d # ds"] retained_def [of dict ds, symmetric]
          after_runs_step)
  qed
qed

lemma process_images_Inr:
  assumes "\<forall>d \<in> set keys. map_of dict d \<noteq> None"
    and "process_images run catch dict keys p = Inr p'"
  shows "p' = after_runs p (run_each run (retained dict keys) (world p))"
  using assms
proof (induction keys arbitrary: p)
  case Nil
  then show ?case
    by (simp add: retained_def after_runs_def failed_images_def)
next
  case (Cons d ds)
  then obtain f where f: "map_of dict d = Some f"
    by auto
  obtain r w1 where r: "run d f (world p) = (r, w1)"
    by (cases "run d f (world p)")
  obtain rs w2 where rs: "run_each run (retained dict ds) w1 = (rs, w2)"
    by (cases "run_each run (retained dict ds) w1")
  have IH: "process_images run catch dict ds q = Inr p' \<Longrightarrow>
              p' = after_runs q (run_each run (retained dict ds) (world q))" for q
    using Cons by simp
  show ?case
  proof (cases r)
    case None
    with f r Cons.prems(2)
    have "process_images run catch dict ds (p\<lparr>processing := processing p @ [f], world := w1\<rparr>) = Inr p'"
      by simp
    from IH [OF this] f r rs None show ?thesis
      by (simp add: retained_def [of dict "d # ds"] retained_def [of dict ds, symmetric]
          after_runs_step)
  next
    case (Some e)
    with f r Cons.prems(2)
    have "process_images run catch dict ds
            (p\<lparr>processing := processing p @ [f], world := w1,
               skipping := skipping p @ [f], skips := skips p + 1\<rparr>) = Inr p'"
      by (simp add: Let_def split: if_splits)
    from IH [OF this] f r rs Some show ?thesis
      by (simp add: retained_def [of dict "d # ds"] retained_def [of dict ds, symmetric]
          after_runs_step)
  qed
qed

lemma keys_in_image_dict:
  "\<forall>d \<in> set (sort (map fst (image_dict dates images))). map_of (image_dict dates images) d \<noteq> None"
  by (simp add: map_of_eq_None_iff)

lemma retained_image_dict:
  "retained (image_dict dates images) keys = retained (rev (zip dates images)) keys"
  by (simp add: retained_def map_of_image_dict)

text \<open>
  The driver when errors are caught, and whenever it returns a summary: the dictionary
  retains, for each distinct date, the last image given for it.
\<close>

lemma main_catch:
  fixes run :: "('k :: linorder) option \<Rightarrow> string \<Rightarrow> 'w \<Rightarrow> 'e option \<times> 'w"
  assumes catch: "\<not> arg_debug args \<or> arg_allow_exceptions args"
    and dates: "dates = (if arg_dates args \<noteq> [] then map Some (arg_dates args)
                         else map parse_fname_date (arg_images args))"
    and len: "length dates = length (arg_images args)"
    and parsed: "None \<notin> set dates"
  shows "main parse_fname_date run args w =
           Inr \<lparr>final = after_runs \<lparr>world = w, skips = 0, processing = [], skipping = []\<rparr>
                          (run_each run
                             (retained (rev (zip dates (arg_images args))) (sort (remdups dates))) w),
                files_processed = int (length (arg_images args))
                  - skips (after_runs \<lparr>world = w, skips = 0, processing = [], skipping = []\<rparr>
                          (run_each run
                             (retained (rev (zip dates (arg_images args))) (sort (remdups dates))) w)),
                files_total = int (length (arg_images args)),
                none_processed_warning =
                  (skips (after_runs \<lparr>world = w, skips = 0, processing = [], skipping = []\<rparr>
                          (run_each run
                             (retained (rev (zip dates (arg_images args))) (sort (remdups dates))) w))
                   = int (length (arg_images args)))\<rparr>"
proof -
  let ?dict = "image_dict dates (arg_images args)"
  have "None \<notin> set (map fst ?dict)"
    unfolding set_keys_image_dict [OF len] by (rule parsed)
  then have keys: "sorted_keys (map fst ?dict) = (Inr (sort (remdups dates)) :: 'e main_error + 'k option list)"
    using sort_keys_image_dict [OF len] by (simp add: sorted_keys_def)
  have "\<forall>d \<in> set (sort (remdups dates)). map_of ?dict d \<noteq> None"
    using keys_in_image_dict [of dates "arg_images args"] sort_keys_image_dict [OF len] by simp
  from process_images_catch [OF this]
  have loop: "process_images run True ?dict (sort (remdups dates)) p =
          Inr (after_runs p (run_each run
                 (retained (rev (zip dates (arg_images args))) (sort (remdups dates))) (world p)))" for p
    by (simp add: retained_image_dict)
  show ?thesis
    using catch len keys
    unfolding main_def dates [symmetric] Let_def
    by (simp add: loop)
qed

lemma main_Inr:
  fixes run :: "('k :: linorder) option \<Rightarrow> string \<Rightarrow> 'w \<Rightarrow> 'e option \<times> 'w"
  assumes ret: "main parse_fname_date run args w = Inr s"
    and dates: "dates = (if arg_dates args \<noteq> [] then map Some (arg_dates args)
                         else map parse_fname_date (arg_images args))"
  shows "length dates = length (arg_images args)
         \<and> final s = after_runs \<lparr>world = w, skips = 0, processing = [], skipping = []\<rparr>
                        (run_each run
                           (retained (rev (zip dates (arg_images args))) (sort (remdups dates))) w)
         \<and> files_processed s = int (length (arg_images args)) - skips (final s)
         \<and> files_total s = int (length (arg_images args))"
proof -
  let ?dict = "image_dict dates (arg_images args)"
  let ?p0 = "\<lparr>world = w, skips = 0, processing = [], skipping = []\<rparr>"
  from ret have len: "length dates = length (arg_images args)"
    unfolding main_def dates [symmetric] Let_def by (simp split: if_splits)
  from ret len obtain keys where keys: "sorted_keys (map fst ?dict) = (Inr keys :: 'e main_error + 'k option list)"
    unfolding main_def dates [symmetric] Let_def by (auto split: sum.splits)
  then have k: "keys = sort (remdups dates)"
    using sort_keys_image_dict [OF len] by (simp add: sorted_keys_def split: if_splits)
  from ret len keys obtain p where
    p: "process_images run (\<not> arg_debug args \<or> arg_allow_exceptions args) ?dict keys ?p0 = Inr p"
    and s: "s = \<lparr>final = p, files_processed = int (length (arg_images args)) - skips p,
                 files_total = int (length (arg_images args)),
                 none_processed_warning = (skips p = int (length (arg_images args)))\<rparr>"
    unfolding main_def dates [symmetric] Let_def by (auto split: sum.splits)
  have "\<forall>d \<in> set keys. map_of ?dict d \<noteq> None"
    using keys_in_image_dict [of dates "arg_images args"] sort_keys_image_dict [OF len] k by simp
  from process_images_Inr [OF this p]
  have "p = after_runs ?p0 (run_each run
              (retained (rev (zip dates (arg_images args))) (sort (remdups dates))) w)"
    by (simp add: retained_image_dict k)
  with s len show ?thesis
    by simp
qed

lemma map_of_zip_all:
  assumes "length xs = length ys" and "distinct xs"
  shows "map (\<lambda>x. the (map_of (zip xs ys) x)) xs = ys"
  using assms
proof (induction xs ys rule: list_induct2)
  case Nil
  show ?case by simp
next
  case (Cons x xs y ys)
  then have "map (\<lambda>a. the (map_of (zip (x # xs) (y # ys)) a)) xs
             = map (\<lambda>a. the (map_of (zip xs ys) a)) xs"
    by (intro map_cong) auto
  with Cons show ?case
    by simp
qed

lemma retained_rev:
  assumes "distinct (map fst kvs)"
  shows "retained (rev kvs) keys = retained kvs keys"
proof -
  have "map_of (rev kvs) = map_of kvs"
    using assms by (subst map_of_inject_set) (simp_all add: rev_map [symmetric])
  then show ?thesis
    by (simp add: retained_def)
qed

text \<open>
  Where the isolation of failures holds. When errors are caught
  (\<^verbatim>\<open>not DEBUG or allow_exceptions\<close>) and the images of the batch have dates that are all
  present and pairwise distinct, the
  driver returns a summary; every image is processed exactly once, in date order, each
  on the world its predecessor left, whether that one failed or not (\<open>rs\<close> lists the
  images with the error each run raised, if any); the images whose run raised are the
  skipped ones and the counter counts them; and the summary reports the number of
  images minus the skips, out of the number of images.
\<close>

lemma batch_isolation:
  fixes run :: "('k :: linorder) option \<Rightarrow> string \<Rightarrow> 'w \<Rightarrow> 'e option \<times> 'w"
  assumes catch: "\<not> arg_debug args \<or> arg_allow_exceptions args"
    and dates: "dates = (if arg_dates args \<noteq> [] then map Some (arg_dates args)
                         else map parse_fname_date (arg_images args))"
    and len: "length dates = length (arg_images args)"
    and parsed: "None \<notin> set dates"
    and dist: "distinct dates"
    and runs: "run_each run (retained (zip dates (arg_images args)) (sort dates)) w = (rs, w')"
  shows "\<exists>s. main parse_fname_date run args w = Inr s
           \<and> processing (final s) = map fst rs
           \<and> mset (processing (final s)) = mset (arg_images args)
           \<and> skipping (final s) = failed_images rs
           \<and> skips (final s) = int (length (failed_images rs))
           \<and> world (final s) = w'
           \<and> files_processed s = int (length (arg_images args)) - skips (final s)
           \<and> files_total s = int (length (arg_images args))"
proof -
  let ?zs = "zip dates (arg_images args)"
  have "distinct (map fst ?zs)"
    using len dist by simp
  then have "retained (rev ?zs) (sort (remdups dates)) = retained ?zs (sort dates)"
    using dist by (simp add: retained_rev distinct_remdups_id)
  with runs have R: "run_each run (retained (rev ?zs) (sort (remdups dates))) w = (rs, w')"
    by simp
  have "map fst rs = map snd (retained ?zs (sort dates))"
    using run_each_images [of run "retained ?zs (sort dates)" w] runs by simp
  also have "\<dots> = map (\<lambda>d. the (map_of ?zs d)) (sort dates)"
    by (simp add: retained_def comp_def)
  finally have "mset (map fst rs) = image_mset (\<lambda>d. the (map_of ?zs d)) (mset (sort dates))"
    by simp
  also have "\<dots> = mset (map (\<lambda>d. the (map_of ?zs d)) dates)"
    by simp
  also have "\<dots> = mset (arg_images args)"
    using map_of_zip_all [OF len dist] by simp
  finally have all: "mset (map fst rs) = mset (arg_images args)" .
  show ?thesis
    using all unfolding main_catch [OF catch dates len parsed] R
    by (simp add: after_runs_def)
qed

text \<open>
  Claim C9. When two or more images of a batch have the same date, the driver returns a
  summary whenever errors are caught and no date is missing; and whenever it returns
  one, it has processed one image per distinct date (the last image given for that
  date), so fewer images than the batch holds, while the summary's total is the number
  of images given and its processed count that number minus the skips: the images
  dropped by the dictionary, never processed, are counted as processed.
\<close>

theorem shared_dates_drop_images:
  fixes run :: "('k :: linorder) option \<Rightarrow> string \<Rightarrow> 'w \<Rightarrow> 'e option \<times> 'w"
  assumes dates: "dates = (if arg_dates args \<noteq> [] then map Some (arg_dates args)
                           else map parse_fname_date (arg_images args))"
    and len: "length dates = length (arg_images args)"
    and shared: "\<not> distinct dates"
  shows "((\<not> arg_debug args \<or> arg_allow_exceptions args) \<and> None \<notin> set dates
            \<longrightarrow> (\<exists>s. main parse_fname_date run args w = Inr s))
         \<and> (\<forall>s. main parse_fname_date run args w = Inr s \<longrightarrow>
               processing (final s) =
                 map (\<lambda>d. the (map_of (rev (zip dates (arg_images args))) d))
                   (sorted_list_of_set (set dates))
               \<and> length (processing (final s)) = card (set dates)
               \<and> card (set dates) < length (arg_images args)
               \<and> 0 \<le> skips (final s) \<and> skips (final s) \<le> int (card (set dates))
               \<and> files_total s = int (length (arg_images args))
               \<and> files_processed s = int (length (arg_images args)) - skips (final s)
               \<and> files_processed s =
                   (int (card (set dates)) - skips (final s))
                   + (int (length (arg_images args)) - int (card (set dates))))"
proof (intro conjI impI allI)
  assume "(\<not> arg_debug args \<or> arg_allow_exceptions args) \<and> None \<notin> set dates"
  then show "\<exists>s. main parse_fname_date run args w = Inr s"
    using main_catch [OF _ dates len, of run w] by blast
next
  fix s
  assume ret: "main parse_fname_date run args w = Inr s"
  let ?kvs = "retained (rev (zip dates (arg_images args))) (sort (remdups dates))"
  obtain rs w' where R: "run_each run ?kvs w = (rs, w')"
    by (cases "run_each run ?kvs w")
  from main_Inr [OF ret dates] R
  have fin: "final s = after_runs \<lparr>world = w, skips = 0, processing = [], skipping = []\<rparr> (rs, w')"
    and fp: "files_processed s = int (length (arg_images args)) - skips (final s)"
    and ft: "files_total s = int (length (arg_images args))"
    by simp_all
  have imgs: "map fst rs = map snd ?kvs"
    using run_each_images [of run ?kvs w] R by simp
  then have "length rs = length (remdups dates)"
    using length_map [of fst rs] by (simp add: retained_def)
  then have lrs: "length rs = card (set dates)"
    by (simp add: length_remdups_card_conv)
  have less: "card (set dates) < length (arg_images args)"
    using shared card_distinct [of dates] card_length [of dates] len by fastforce
  show "processing (final s) =
          map (\<lambda>d. the (map_of (rev (zip dates (arg_images args))) d))
            (sorted_list_of_set (set dates))"
    by (simp add: fin after_runs_def imgs retained_def comp_def sorted_list_of_set_sort_remdups)
  show "length (processing (final s)) = card (set dates)"
    using lrs by (simp add: fin after_runs_def)
  show "card (set dates) < length (arg_images args)"
    by (rule less)
  show "0 \<le> skips (final s)"
    by (simp add: fin after_runs_def)
  show "skips (final s) \<le> int (card (set dates))"
    using length_failed_images [of rs] lrs by (simp add: fin after_runs_def)
  show "files_total s = int (length (arg_images args))"
    by (rule ft)
  show "files_processed s = int (length (arg_images args)) - skips (final s)"
    by (rule fp)
  show "files_processed s =
          (int (card (set dates)) - skips (final s))
          + (int (length (arg_images args)) - int (card (set dates)))"
    using fp by simp
qed

text \<open>
  Claim C8 does not hold of the code. The comment before the loop reads ``Loop through
  all images provided'' and the log line before it gives the number of images as the
  number being processed, but the loop runs over the keys of the dictionary. Of three
  images, the first two flown on 2020-04-14, the warp of the third fails: it is skipped
  and counted, but of the two other images only the second is processed. The first is
  never run, the collection holds one flight, and the summary reports 2 of 3.
\<close>

theorem batch_isolation_fails_for_shared_dates:
  "\<not> isl (main fname_dates (run_grm (tuolumne [''USCATE20200520_depth.tif''])) (batch two_days) Map.empty)
   \<and> processing (final (projr (main fname_dates (run_grm (tuolumne [''USCATE20200520_depth.tif'']))
                                  (batch two_days) Map.empty)))
       = [''USCATB20200414_depth.tif'', ''USCATE20200520_depth.tif'']
   \<and> skipping (final (projr (main fname_dates (run_grm (tuolumne [''USCATE20200520_depth.tif'']))
                                (batch two_days) Map.empty)))
       = [''USCATE20200520_depth.tif'']
   \<and> files_processed (projr (main fname_dates (run_grm (tuolumne [''USCATE20200520_depth.tif'']))
                                (batch two_days) Map.empty)) = 2
   \<and> files_total (projr (main fname_dates (run_grm (tuolumne [''USCATE20200520_depth.tif'']))
                            (batch two_days) Map.empty)) = 3
   \<and> ''USCATE20200414_depth.tif'' \<in> set two_days
   \<and> ''USCATE20200414_depth.tif'' \<notin>
       set (processing (final (projr (main fname_dates
              (run_grm (tuolumne [''USCATE20200520_depth.tif''])) (batch two_days) Map.empty))))
   \<and> map_option time_values
        (var_time (the (world (final (projr (main fname_dates
           (run_grm (tuolumne [''USCATE20200520_depth.tif''])) (batch two_days) Map.empty))) 2020)))
       = Some [4727]"
  by code_simp

text \<open>
  In that run the summary reports 2 of 3 although the first image of the batch is not
  among those processed.
\<close>

theorem batch_isolation_fails_for_shared_dates_witness:
  "files_processed (projr (main fname_dates (run_grm (tuolumne [''USCATE20200520_depth.tif'']))
                             (batch two_days) Map.empty)) = 2
   \<and> files_total (projr (main fname_dates (run_grm (tuolumne [''USCATE20200520_depth.tif'']))
                            (batch two_days) Map.empty)) = 3
   \<and> ''USCATE20200414_depth.tif'' \<in> set two_days
   \<and> ''USCATE20200414_depth.tif'' \<notin>
       set (processing (final (projr (main fname_dates
              (run_grm (tuolumne [''USCATE20200520_depth.tif''])) (batch two_days) Map.empty))))"
  using batch_isolation_fails_for_shared_dates by blast

text \<open>
  Three images flown on three days, the warp of the second failing: all three are
  processed, the second is skipped, and the summary reports 2 of 3.
\<close>

lemma batch_isolation_example:
  "processing (final (projr (main fname_dates (run_grm (tuolumne [''USCATE20200414_depth.tif'']))
                               (batch three_days) Map.empty))) = three_days
   \<and> skipping (final (projr (main fname_dates (run_grm (tuolumne [''USCATE20200414_depth.tif'']))
                                (batch three_days) Map.empty)))
       = [''USCATE20200414_depth.tif'']
   \<and> skips (final (projr (main fname_dates (run_grm (tuolumne [''USCATE20200414_depth.tif'']))
                             (batch three_days) Map.empty))) = 1
   \<and> files_processed (projr (main fname_dates (run_grm (tuolumne [''USCATE20200414_depth.tif'']))
                                (batch three_days) Map.empty)) = 2
   \<and> files_total (projr (main fname_dates (run_grm (tuolumne [''USCATE20200414_depth.tif'']))
                            (batch three_days) Map.empty)) = 3"
proof -
  define run where "run = run_grm (tuolumne [''USCATE20200414_depth.tif''])"
  define args where "args = batch three_days"
  define dates where "dates = map fname_dates three_days"
  define R where "R = run_each run (retained (zip dates (arg_images args)) (sort dates)) Map.empty"
  define m where "m = main fname_dates run args Map.empty"
  have catch: "\<not> arg_debug args \<or> arg_allow_exceptions args"
    by (simp add: args_def batch_def)
  have dates: "dates = (if arg_dates args \<noteq> [] then map Some (arg_dates args)
                        else map fname_dates (arg_images args))"
    by (simp add: args_def dates_def batch_def)
  have len: "length dates = length (arg_images args)"
    by (simp add: args_def dates_def batch_def)
  have parsed: "None \<notin> set dates"
    unfolding dates_def by code_simp
  have dist: "distinct dates"
    unfolding dates_def by code_simp
  have runs: "run_each run (retained (zip dates (arg_images args)) (sort dates)) Map.empty
                = (fst R, snd R)"
    by (simp add: R_def)
  have images: "map fst (fst R) = three_days"
    unfolding R_def run_def args_def dates_def by code_simp
  have failed: "failed_images (fst R) = [''USCATE20200414_depth.tif'']"
    unfolding R_def run_def args_def dates_def by code_simp
  have total: "int (length (arg_images args)) = 3"
    by (simp add: args_def batch_def three_days_def)
  from batch_isolation [OF catch dates len parsed dist runs]
  obtain s where "m = Inr s"
    and "processing (final s) = map fst (fst R)"
    and "skipping (final s) = failed_images (fst R)"
    and "skips (final s) = int (length (failed_images (fst R)))"
    and "files_processed s = int (length (arg_images args)) - skips (final s)"
    and "files_total s = int (length (arg_images args))"
    unfolding m_def by blast
  then have "processing (final (projr m)) = three_days
      \<and> skipping (final (projr m)) = [''USCATE20200414_depth.tif'']
      \<and> skips (final (projr m)) = 1
      \<and> files_processed (projr m) = 2
      \<and> files_total (projr m) = 3"
    by (simp add: images failed total)
  then show ?thesis
    unfolding m_def run_def args_def .
qed

text \<open>
  Three images, the first two flown on the same day, none failing: two images are
  processed, nothing is skipped, and the summary reports 3 of 3.
\<close>

theorem shared_dates_drop_images_witness:
  "\<not> distinct (map fname_dates two_days)
   \<and> \<not> isl (main fname_dates (run_grm (tuolumne [])) (batch two_days) Map.empty)
   \<and> processing (final (projr (main fname_dates (run_grm (tuolumne [])) (batch two_days) Map.empty)))
       = [''USCATB20200414_depth.tif'', ''USCATE20200520_depth.tif'']
   \<and> card (set (map fname_dates two_days)) = 2
   \<and> skips (final (projr (main fname_dates (run_grm (tuolumne [])) (batch two_days) Map.empty))) = 0
   \<and> files_processed (projr (main fname_dates (run_grm (tuolumne [])) (batch two_days) Map.empty)) = 3
   \<and> files_total (projr (main fname_dates (run_grm (tuolumne [])) (batch two_days) Map.empty)) = 3"
proof -
  define run where "run = run_grm (tuolumne [])"
  define args where "args = batch two_days"
  define dates where "dates = map fname_dates two_days"
  define m where "m = main fname_dates run args Map.empty"
  define attempted where
    "attempted = map (\<lambda>d. the (map_of (rev (zip dates (arg_images args))) d))
                   (sorted_list_of_set (set dates))"
  have dates: "dates = (if arg_dates args \<noteq> [] then map Some (arg_dates args)
                        else map fname_dates (arg_images args))"
    by (simp add: args_def dates_def batch_def)
  have len: "length dates = length (arg_images args)"
    by (simp add: args_def dates_def batch_def)
  have shared: "\<not> distinct dates"
    unfolding dates_def by code_simp
  have card: "card (set dates) = 2"
    unfolding dates_def by code_simp
  have attempted: "attempted = [''USCATB20200414_depth.tif'', ''USCATE20200520_depth.tif'']"
    unfolding attempted_def dates_def args_def by code_simp
  have ret: "\<not> isl m"
    unfolding m_def run_def args_def by code_simp
  have skips: "skips (final (projr m)) = 0"
    unfolding m_def run_def args_def by code_simp
  have total: "int (length (arg_images args)) = 3"
    by (simp add: args_def batch_def two_days_def)
  from ret have "main fname_dates run args Map.empty = Inr (projr m)"
    unfolding m_def by (cases "main fname_dates run args Map.empty") simp_all
  with shared_dates_drop_images [OF dates len shared, of run Map.empty]
  have "processing (final (projr m)) = attempted"
    and "files_total (projr m) = int (length (arg_images args))"
    and "files_processed (projr m) = int (length (arg_images args)) - skips (final (projr m))"
    unfolding attempted_def by blast+
  with shared ret card skips have "\<not> distinct dates
      \<and> \<not> isl m
      \<and> processing (final (projr m)) = [''USCATB20200414_depth.tif'', ''USCATE20200520_depth.tif'']
      \<and> card (set dates) = 2
      \<and> skips (final (projr m)) = 0
      \<and> files_processed (projr m) = 3
      \<and> files_total (projr m) = 3"
    by (simp add: attempted total)
  then show ?thesis
    unfolding m_def run_def args_def dates_def .
qed

text \<open>
  A second way in which one observation stops the others: an image whose name carries no
  date gets the key \<^verbatim>\<open>None\<close>, and sorting \<^verbatim>\<open>None\<close> among other keys raises
  \<^verbatim>\<open>TypeError\<close> before the loop, outside the \<^verbatim>\<open>try\<close>: no image is processed and no
  summary is reported, although errors are to be caught. Alone in its batch, such an
  image is processed, fails in \<^verbatim>\<open>add_to_collection\<close> and is skipped.
\<close>

lemma undated_image_aborts_batch:
  "isl (main fname_dates (run_grm (tuolumne []))
          (batch [''USCATE20200301_depth.tif'', ''nodate.tif'', ''USCATE20200520_depth.tif''])
          Map.empty)
   \<and> projl (main fname_dates (run_grm (tuolumne []))
          (batch [''USCATE20200301_depth.tif'', ''nodate.tif'', ''USCATE20200520_depth.tif''])
          Map.empty) = Unorderable_keys
   \<and> \<not> isl (main fname_dates (run_grm (tuolumne [])) (batch [''nodate.tif'']) Map.empty)
   \<and> skipping (final (projr (main fname_dates (run_grm (tuolumne []))
                                (batch [''nodate.tif'']) Map.empty))) = [''nodate.tif'']
   \<and> files_processed (projr (main fname_dates (run_grm (tuolumne []))
                                (batch [''nodate.tif'']) Map.empty)) = 0"
  by code_simp

end
